theory Spec2Isabelle
  imports Complex_Main
begin

section \<open>Data model\<close>

text \<open>
  A signal is a one-dimensional array of samples. Samples are modelled as real numbers
  and the arithmetic on samples is exact: the rounding of the floating-point operations
  on samples is outside the model. The floating-point products that the program
  truncates to integers are rounded as the program rounds them (section
  ``Double-precision products''). Integers of the program (lengths, indices, the sample
  rate) are unbounded, as in Python.
\<close>

type_synonym sample = real
type_synonym signal = "sample list"

text \<open>
  The exceptions that the modelled code can raise. \<open>ValueError\<close> is raised by the code
  itself (unknown method) and by the array library (negative array sizes, the maximum of
  an empty array); \<open>ZeroDivisionError\<close> by the division of two Python integers;
  \<open>ParameterError\<close> is what the external time-stretch raises on a rate that is not
  positive.
\<close>

datatype error = ValueError | ZeroDivisionError | ParameterError

text \<open>
  The time-stretch (\<open>librosa.effects.time_stretch\<close>) is an external capability: every
  function that calls it takes it as a parameter.
\<close>

type_synonym stretcher = "signal \<Rightarrow> real \<Rightarrow> error + signal"

section \<open>Double-precision products\<close>

text \<open>
  The program derives three kinds of integers from floating-point products: the target
  length \<open>int(target_duration * sample_rate)\<close>, the fade length \<open>int(0.05 * sr)\<close> and
  the reverb delay \<open>int(sr * 0.05 * room_size)\<close>. Truncation does not commute with
  rounding, so these products are computed as the program computes them: every operand
  is taken to the nearest double (a float literal such as \<open>0.05\<close> and the conversion of
  the integer sample rate), and the product of two doubles is rounded to the nearest
  double, ties to even.
\<close>

text \<open>Rounding to the nearest integer, ties to the even one.\<close>

definition round_half_even :: "real \<Rightarrow> int" where
  "round_half_even r =
     (let n = \<lfloor>r\<rfloor>; d = r - of_int n
      in if d < 1 / 2 then n else if 1 / 2 < d then n + 1 else if even n then n else n + 1)"

text \<open>The binary exponent of a number that is not zero: \<open>2 ^ e \<le> |x| < 2 ^ (e + 1)\<close>.\<close>

function exponent :: "real \<Rightarrow> int" where
  "exponent x =
     (if x = 0 then 0
      else if 2 \<le> \<bar>x\<bar> then exponent (x / 2) + 1
      else if \<bar>x\<bar> < 1 then exponent (2 * x) - 1
      else 0)"
  by pat_completeness auto
termination
proof (relation "measure (\<lambda>x. nat \<bar>\<lfloor>log 2 \<bar>x\<bar>\<rfloor>\<bar>)")
  show "wf (measure (\<lambda>x. nat \<bar>\<lfloor>log 2 \<bar>x\<bar>\<rfloor>\<bar>))" by simp
next
  fix x :: real
  assume "x \<noteq> 0" "2 \<le> \<bar>x\<bar>"
  then have l: "log 2 \<bar>x / 2\<bar> = log 2 \<bar>x\<bar> - 1"
    by (simp add: log_divide)
  have "1 \<le> log 2 \<bar>x\<bar>" using \<open>2 \<le> \<bar>x\<bar>\<close> by (simp add: le_log_iff)
  then have "1 \<le> \<lfloor>log 2 \<bar>x\<bar>\<rfloor>" by (simp add: le_floor_iff)
  moreover have "\<lfloor>log 2 \<bar>x / 2\<bar>\<rfloor> = \<lfloor>log 2 \<bar>x\<bar>\<rfloor> - 1"
    unfolding l by simp
  ultimately have "nat \<bar>\<lfloor>log 2 \<bar>x / 2\<bar>\<rfloor>\<bar> < nat \<bar>\<lfloor>log 2 \<bar>x\<bar>\<rfloor>\<bar>"
    by linarith
  then show "(x / 2, x) \<in> measure (\<lambda>x. nat \<bar>\<lfloor>log 2 \<bar>x\<bar>\<rfloor>\<bar>)"
    by (simp only: in_measure)
next
  fix x :: real
  assume "x \<noteq> 0" "\<not> 2 \<le> \<bar>x\<bar>" "\<bar>x\<bar> < 1"
  then have l: "log 2 \<bar>2 * x\<bar> = log 2 \<bar>x\<bar> + 1"
    by (simp add: abs_mult log_mult)
  have "log 2 \<bar>x\<bar> < 0" using \<open>\<bar>x\<bar> < 1\<close> \<open>x \<noteq> 0\<close> by simp
  then have "\<lfloor>log 2 \<bar>x\<bar>\<rfloor> < 0" by (simp add: floor_less_iff)
  moreover have "\<lfloor>log 2 \<bar>2 * x\<bar>\<rfloor> = \<lfloor>log 2 \<bar>x\<bar>\<rfloor> + 1"
    unfolding l by simp
  ultimately have "nat \<bar>\<lfloor>log 2 \<bar>2 * x\<bar>\<rfloor>\<bar> < nat \<bar>\<lfloor>log 2 \<bar>x\<bar>\<rfloor>\<bar>"
    by linarith
  then show "(2 * x, x) \<in> measure (\<lambda>x. nat \<bar>\<lfloor>log 2 \<bar>x\<bar>\<rfloor>\<bar>)"
    by (simp only: in_measure)
qed

declare exponent.simps [simp del]

definition pow2 :: "int \<Rightarrow> real" where
  "pow2 e = (if 0 \<le> e then 2 ^ nat e else 1 / 2 ^ nat (- e))"

text \<open>
  The double nearest to a real number: 53 significant bits, the spacing of the
  subnormal range below \<open>2 ^ (- 1022)\<close>. A result of magnitude \<open>2 ^ 1024\<close> or more is
  infinite in the program; the model has no infinity and covers the finite range.
\<close>

definition float64 :: "real \<Rightarrow> real" where
  "float64 x =
     (let ulp = pow2 (max (- 1022) (exponent x) - 52)
      in of_int (round_half_even (x / ulp)) * ulp)"

text \<open>The floating-point product \<open>a * b\<close>.\<close>

definition fmul :: "real \<Rightarrow> real \<Rightarrow> real" where
  "fmul a b = float64 (float64 a * float64 b)"

section \<open>Python and array primitives\<close>

text \<open>\<open>int(x)\<close> on a float: truncation towards zero.\<close>

definition py_int :: "real \<Rightarrow> int" where
  "py_int x = (if 0 \<le> x then \<lfloor>x\<rfloor> else \<lceil>x\<rceil>)"

text \<open>The slice \<open>a[:n]\<close>: a negative \<open>n\<close> counts from the end.\<close>

definition slice_to :: "int \<Rightarrow> 'a list \<Rightarrow> 'a list" where
  "slice_to n a = (if 0 \<le> n then take (nat n) a else take (length a - nat (- n)) a)"

text \<open>\<open>np.tile(a, reps)\<close> on a one-dimensional array; a negative count is refused.\<close>

definition tile :: "'a list \<Rightarrow> int \<Rightarrow> error + 'a list" where
  "tile a reps = (if reps < 0 then Inl ValueError else Inr (concat (replicate (nat reps) a)))"

text \<open>
  \<open>int(np.ceil(a / b))\<close> for two Python integers: the true division raises on a zero
  divisor. The quotient is taken exactly: for lengths below \<open>2 ^ 53\<close> the double
  nearest to the quotient has the same ceiling.
\<close>

definition ceil_div :: "int \<Rightarrow> int \<Rightarrow> error + int" where
  "ceil_div a b = (if b = 0 then Inl ZeroDivisionError else Inr \<lceil>real_of_int a / real_of_int b\<rceil>)"

text \<open>Sequencing of fallible steps: the first exception ends the computation.\<close>

definition then_do :: "error + 'a \<Rightarrow> ('a \<Rightarrow> error + 'b) \<Rightarrow> error + 'b" where
  "then_do r f = (case r of Inl e \<Rightarrow> Inl e | Inr v \<Rightarrow> f v)"

text \<open>A \<open>for\<close> loop over a list of indices whose body may raise.\<close>

primrec for_each :: "('s \<Rightarrow> 'i \<Rightarrow> error + 's) \<Rightarrow> 'i list \<Rightarrow> 's \<Rightarrow> error + 's" where
  "for_each body [] s = Inr s"
| "for_each body (i # rest) s = then_do (body s i) (for_each body rest)"

text \<open>
  \<open>np.linspace(start, stop, num)\<close>: \<open>num\<close> evenly spaced values from \<open>start\<close> to
  \<open>stop\<close> inclusive; a negative \<open>num\<close> is refused.
\<close>

definition linspace :: "real \<Rightarrow> real \<Rightarrow> int \<Rightarrow> error + signal" where
  "linspace start stop num =
     (if num < 0 then Inl ValueError
      else if num = 1 then Inr [start]
      else Inr (map (\<lambda>j. start + real j * ((stop - start) / real_of_int (num - 1)))
                  [0 ..< nat num]))"

text \<open>
  The in-place update \<open>a[start:start + len(fade)] *= fade\<close>. Every call below is
  guarded so that the slice lies inside the array, where the slice and \<open>fade\<close> have
  the same length.
\<close>

definition mul_slice :: "signal \<Rightarrow> nat \<Rightarrow> signal \<Rightarrow> signal" where
  "mul_slice a start fade =
     take start a @ map2 (*) (take (length fade) (drop start a)) fade
       @ drop (start + length fade) a"

text \<open>
  The random source. \<open>draws j\<close> is the \<open>j\<close>-th value that the generator hands out
  during one call of a modelled function; \<open>normal draws offset scale count\<close> is
  \<open>np.random.normal(0, scale, count)\<close> when \<open>offset\<close> values have been consumed before.
  A negative scale or size is refused.
\<close>

type_synonym rng = "nat \<Rightarrow> sample"

definition normal :: "rng \<Rightarrow> nat \<Rightarrow> real \<Rightarrow> int \<Rightarrow> error + signal" where
  "normal draws offset scale count =
     (if scale < 0 \<or> count < 0 then Inl ValueError
      else Inr (map draws [offset ..< offset + nat count]))"

text \<open>\<open>np.max(np.abs(audio))\<close>; the maximum of an empty array is refused.\<close>

definition max_abs :: "signal \<Rightarrow> error + real" where
  "max_abs audio = (if audio = [] then Inl ValueError else Inr (Max (set (map abs audio))))"

section \<open>The class AudioAugmentor (audio\_augmentation.py)\<close>

record AudioAugmentor =
  target_duration :: real
  sample_rate :: int
  target_length :: int

text \<open>The constructor \<open>__init__\<close>.\<close>

definition AudioAugmentor_init :: "real \<Rightarrow> int \<Rightarrow> AudioAugmentor" where
  "AudioAugmentor_init td sr =
     \<lparr>target_duration = td, sample_rate = sr, target_length = py_int (fmul td (real_of_int sr))\<rparr>"

text \<open>
  \<open>extend_to_target_length\<close>. The length check comes first; the method is examined
  only for a signal shorter than the target.
\<close>

definition extend_to_target_length ::
  "stretcher \<Rightarrow> AudioAugmentor \<Rightarrow> signal \<Rightarrow> string \<Rightarrow> error + signal" where
  "extend_to_target_length time_stretch self audio method =
    (let current_length = int (length audio) in
     if current_length \<ge> target_length self then Inr (slice_to (target_length self) audio)
     else if method = ''stretch'' then
       (let rate = real_of_int current_length / real_of_int (target_length self) in
        case time_stretch audio rate of
          Inl e \<Rightarrow> Inl e
        | Inr stretched \<Rightarrow> Inr (slice_to (target_length self) stretched))
     else if method = ''repeat'' then
       (case ceil_div (target_length self) current_length of
          Inl e \<Rightarrow> Inl e
        | Inr num_repeats \<Rightarrow>
            (case tile audio num_repeats of
               Inl e \<Rightarrow> Inl e
             | Inr repeated \<Rightarrow> Inr (slice_to (target_length self) repeated)))
     else if method = ''stretch_and_repeat'' then
       (case time_stretch audio (7 / 10) of
          Inl e \<Rightarrow> Inl e
        | Inr stretched \<Rightarrow>
            if int (length stretched) < target_length self then
              (case ceil_div (target_length self) (int (length stretched)) of
                 Inl e \<Rightarrow> Inl e
               | Inr num_repeats \<Rightarrow>
                   (case tile stretched num_repeats of
                      Inl e \<Rightarrow> Inl e
                    | Inr result \<Rightarrow> Inr (slice_to (target_length self) result)))
            else Inr (slice_to (target_length self) stretched))
     else if method = ''pad_silence'' then
       (let silence_needed = target_length self - current_length;
            silence_before = silence_needed div 2;
            silence_after = silence_needed - silence_before
        in Inr (replicate (nat silence_before) 0 @ audio @ replicate (nat silence_after) 0))
     else Inl ValueError)"

text \<open>
  \<open>add_white_noise\<close> (the method of the class and the function of extend\_audio.py have
  the same body): one normal draw per sample, added to the signal.
\<close>

definition add_white_noise :: "rng \<Rightarrow> signal \<Rightarrow> real \<Rightarrow> error + signal" where
  "add_white_noise draws audio noise_level =
     then_do (normal draws 0 noise_level (int (length audio)))
       (\<lambda>noise. Inr (map2 (+) audio noise))"

text \<open>
  \<open>simple_reverb\<close> of extend\_audio.py. With a delay that is not negative the buffer
  \<open>reverb\<close> is the signal followed by \<open>delay\<close> zeros and \<open>reverb[delay:]\<close> has as many
  samples as the signal. With a negative delay \<open>np.zeros\<close> refuses a negative size, and
  otherwise the assignment \<open>reverb[:len(audio)] = audio\<close> into the shorter buffer raises
  unless the signal has one sample (which broadcasts into the empty buffer).
\<close>

definition simple_reverb :: "signal \<Rightarrow> int \<Rightarrow> real \<Rightarrow> error + signal" where
  "simple_reverb audio sr room_size =
     (let delay = py_int (fmul (fmul (real_of_int sr) (5 / 100)) room_size);
          decay = (3 / 10) * room_size
      in if 0 \<le> delay then
           (let reverb = audio @ replicate (nat delay) 0;
                reverb = take (nat delay) reverb
                           @ map2 (+) (drop (nat delay) reverb) (map (\<lambda>x. x * decay) audio)
            in Inr (take (length audio) reverb))
         else if int (length audio) + delay < 0 then Inl ValueError
         else if length audio = 1 then Inr []
         else Inl ValueError)"

text \<open>\<open>AudioAugmentor.add_reverb\<close>: the same body, at the sample rate of the object.\<close>

definition add_reverb :: "AudioAugmentor \<Rightarrow> signal \<Rightarrow> real \<Rightarrow> error + signal" where
  "add_reverb self audio room_size = simple_reverb audio (sample_rate self) room_size"

text \<open>
  The body of the seam loop of the comprehensive pipelines (\<open>augment_audio\<close> lines
  221 to 225, \<open>extend_audio_method3_comprehensive\<close> lines 110 to 114): at the seam
  \<open>i * len(stretched)\<close> the next \<open>fade_length\<close> samples are multiplied by a ramp from 0
  to 1, when the window ends strictly inside the buffer.
\<close>

definition fade_in_step :: "nat \<Rightarrow> int \<Rightarrow> signal \<Rightarrow> nat \<Rightarrow> error + signal" where
  "fade_in_step seam_period fade_length repeated i =
     (let start_idx = int i * int seam_period
      in if start_idx < int (length repeated)
            \<and> start_idx + fade_length < int (length repeated)
         then then_do (linspace 0 1 fade_length)
                (\<lambda>fade. Inr (mul_slice repeated (nat start_idx) fade))
         else Inr repeated)"

text \<open>The branch \<open>method == 'comprehensive'\<close> of \<open>augment_audio\<close> (lines 210 to 231).\<close>

definition augment_comprehensive ::
  "stretcher \<Rightarrow> rng \<Rightarrow> AudioAugmentor \<Rightarrow> signal \<Rightarrow> real \<Rightarrow> error + signal" where
  "augment_comprehensive time_stretch draws self audio noise_level =
     then_do (time_stretch audio (8 / 10)) (\<lambda>stretched.
     then_do (ceil_div (target_length self) (int (length stretched))) (\<lambda>num_repeats.
     then_do (tile stretched num_repeats) (\<lambda>tiled.
       let repeated = slice_to (target_length self) tiled;
           fade_length = py_int (fmul (5 / 100) (real_of_int (sample_rate self)))
       in
     then_do (for_each (fade_in_step (length stretched) fade_length)
                [1 ..< nat num_repeats] repeated) (\<lambda>repeated.
     then_do (add_white_noise draws repeated noise_level) (\<lambda>noisy.
       add_reverb self noisy (3 / 10))))))"

text \<open>The length fix of \<open>augment_audio\<close> (lines 237 to 240); \<open>np.pad\<close> appends zeros.\<close>

definition fix_length :: "int \<Rightarrow> signal \<Rightarrow> signal" where
  "fix_length target extended =
     (if int (length extended) > target then slice_to target extended
      else if int (length extended) < target
        then extended @ replicate (nat (target - int (length extended))) 0
      else extended)"

text \<open>
  The result of a floating-point division can be the value NaN, which no real number
  models. The last statement of \<open>augment_audio\<close> (line 243) divides every sample by the
  maximum absolute value without testing it: when the maximum is zero every sample is
  zero, each quotient is \<open>0 / 0\<close>, that is NaN, and NaN times 0.95 is NaN.
\<close>

datatype fvalue = Finite sample | NaN

definition scale_by_peak :: "signal \<Rightarrow> error + fvalue list" where
  "scale_by_peak extended =
     then_do (max_abs extended) (\<lambda>max_val.
       if max_val = 0 then Inr (map (\<lambda>x. NaN) extended)
       else Inr (map (\<lambda>x. Finite (x / max_val * (95 / 100))) extended))"

text \<open>\<open>AudioAugmentor.augment_audio\<close>.\<close>

definition augment_audio ::
  "stretcher \<Rightarrow> rng \<Rightarrow> AudioAugmentor \<Rightarrow> signal \<Rightarrow> string \<Rightarrow> real \<Rightarrow> error + fvalue list" where
  "augment_audio time_stretch draws self audio method noise_level =
     then_do
       (if method = ''simple'' then extend_to_target_length time_stretch self audio ''repeat''
        else if method = ''stretch'' then extend_to_target_length time_stretch self audio ''stretch''
        else if method = ''comprehensive''
          then augment_comprehensive time_stretch draws self audio noise_level
        else Inl ValueError)
       (\<lambda>extended. scale_by_peak (fix_length (target_length self) extended))"

section \<open>The functions of extend\_audio.py\<close>

text \<open>
  The parameter \<open>target_duration\<close> of these functions is written \<open>target_seconds\<close>
  below, the name \<open>target_duration\<close> being the field of the record above.
\<close>

text \<open>
  The body of the seam loop of \<open>extend_audio_method1_repeat\<close> (lines 52 to 61): the
  \<open>fade_length\<close> samples before the seam are multiplied by a ramp from 1 to 0 (when the
  seam is at least \<open>fade_length\<close> from the start), the \<open>fade_length\<close> samples from the
  seam on by a ramp from 0 to 1.
\<close>

definition crossfade_step :: "nat \<Rightarrow> int \<Rightarrow> signal \<Rightarrow> nat \<Rightarrow> error + signal" where
  "crossfade_step current_length fade_length extended i =
     (let start_idx = int i * int current_length
      in if start_idx < int (length extended)
            \<and> start_idx + fade_length < int (length extended)
         then then_do (linspace 1 0 fade_length) (\<lambda>fade_out.
              then_do (linspace 0 1 fade_length) (\<lambda>fade_in.
                let extended =
                      (if start_idx - fade_length \<ge> 0
                       then mul_slice extended (nat (start_idx - fade_length)) fade_out
                       else extended)
                in Inr (mul_slice extended (nat start_idx) fade_in)))
         else Inr extended)"

definition extend_audio_method1_repeat :: "signal \<Rightarrow> int \<Rightarrow> real \<Rightarrow> error + signal" where
  "extend_audio_method1_repeat audio sr target_seconds =
     (let target_length = py_int (fmul target_seconds (real_of_int sr));
          current_length = length audio
      in then_do (ceil_div target_length (int current_length)) (\<lambda>num_repeats.
         then_do (tile audio num_repeats) (\<lambda>extended.
           let fade_length = py_int (fmul (5 / 100) (real_of_int sr))
           in
         then_do (for_each (crossfade_step current_length fade_length)
                    [1 ..< nat num_repeats] extended) (\<lambda>extended.
           Inr (slice_to target_length extended)))))"

text \<open>
  \<open>extend_audio_method3_comprehensive\<close>. The stretch rate, drawn uniformly from
  0.75 to 0.85 by the code, is the parameter \<open>stretch_rate\<close>.
\<close>

definition extend_audio_method3_comprehensive ::
  "stretcher \<Rightarrow> rng \<Rightarrow> real \<Rightarrow> signal \<Rightarrow> int \<Rightarrow> real \<Rightarrow> real \<Rightarrow> error + signal" where
  "extend_audio_method3_comprehensive time_stretch draws stretch_rate audio sr
       target_seconds noise_level =
     (let target_length = py_int (fmul target_seconds (real_of_int sr))
      in then_do (time_stretch audio stretch_rate) (\<lambda>stretched.
         then_do (ceil_div target_length (int (length stretched))) (\<lambda>num_repeats.
         then_do (tile stretched num_repeats) (\<lambda>tiled.
           let repeated = slice_to target_length tiled;
               fade_length = py_int (fmul (5 / 100) (real_of_int sr))
           in
         then_do (for_each (fade_in_step (length stretched) fade_length)
                    [1 ..< nat num_repeats] repeated) (\<lambda>repeated.
         then_do (add_white_noise draws repeated noise_level) (\<lambda>noisy.
         then_do (simple_reverb noisy sr (3 / 10)) (\<lambda>extended.
           Inr (slice_to target_length extended))))))))"

text \<open>
  \<open>extend_audio_method4_silence_padding\<close>: the padding before and after the signal is
  filled with normal draws of scale 0.001, not with zeros. There is no length check: a
  negative \<open>silence_before\<close> reaches \<open>np.random.normal\<close> as the size.
\<close>

definition extend_audio_method4_silence_padding ::
  "rng \<Rightarrow> signal \<Rightarrow> int \<Rightarrow> real \<Rightarrow> error + signal" where
  "extend_audio_method4_silence_padding draws audio sr target_seconds =
     (let target_length = py_int (fmul target_seconds (real_of_int sr));
          current_length = int (length audio);
          silence_needed = target_length - current_length;
          silence_before = silence_needed div 2;
          silence_after = silence_needed - silence_before
      in then_do (normal draws 0 (1 / 1000) silence_before) (\<lambda>noise_before.
         then_do (normal draws (nat silence_before) (1 / 1000) silence_after) (\<lambda>noise_after.
           Inr (noise_before @ audio @ noise_after))))"

text \<open>\<open>normalize_audio\<close>: the division is guarded by \<open>max_val > 0\<close>.\<close>

definition normalize_audio :: "signal \<Rightarrow> real \<Rightarrow> error + signal" where
  "normalize_audio audio target_peak =
     then_do (max_abs audio) (\<lambda>max_val.
       if max_val > 0 then Inr (map (\<lambda>x. x / max_val * target_peak) audio)
       else Inr audio)"

text \<open>
  One outcome of the random source, to run the functions on concrete inputs: every draw
  is 0.001.
\<close>

definition constant_draws :: rng where
  "constant_draws j = 1 / 1000"

text \<open>
  A stretcher to run the strategies on concrete inputs: it refuses a rate that is not
  positive and otherwise resamples to \<open>round (len / rate)\<close> samples by nearest lower
  index (kept inside the signal). The theorems below hold for every stretcher; this one only instantiates them.
\<close>

definition resample_stretch :: stretcher where
  "resample_stretch audio rate =
     (if rate \<le> 0 then Inl ParameterError
      else Inr (map (\<lambda>i. audio ! min (length audio - 1) (nat \<lfloor>real i * rate\<rfloor>))
                  [0 ..< nat (round (real (length audio) / rate))]))"

text \<open>
  The reference model of the reverb in the words of the specification, to compare
  \<open>simple_reverb\<close> with: \<open>delay = round(0.05 * sampleRate * roomSize)\<close>,
  \<open>decay = 0.3 * roomSize\<close>, \<open>output[i] = signal[i]\<close> for \<open>i < delay\<close> and
  \<open>output[i] = signal[i] + decay * signal[i - delay]\<close> from \<open>delay\<close> on.
\<close>

definition reverb_reference :: "signal \<Rightarrow> int \<Rightarrow> real \<Rightarrow> signal" where
  "reverb_reference signal sampleRate roomSize =
     (let delay = nat (round ((5 / 100) * real_of_int sampleRate * roomSize));
          decay = (3 / 10) * roomSize
      in map (\<lambda>i. if i < delay then signal ! i else signal ! i + decay * signal ! (i - delay))
           [0 ..< length signal])"

section \<open>Auxiliary facts\<close>

lemma pow2_pos: "0 < pow2 e"
  by (simp add: pow2_def)

lemma round_half_even_nonneg: "0 \<le> r \<Longrightarrow> 0 \<le> round_half_even r"
  by (simp add: round_half_even_def Let_def)

lemma round_half_even_nonpos:
  assumes "r \<le> 0"
  shows "round_half_even r \<le> 0"
proof -
  have n: "\<lfloor>r\<rfloor> \<le> 0" using assms by (simp add: floor_le_iff)
  have "\<lfloor>r\<rfloor> + 1 \<le> 0" if "1 / 2 \<le> r - of_int \<lfloor>r\<rfloor>"
  proof -
    have "of_int \<lfloor>r\<rfloor> < (0::real)" using that assms by linarith
    then have "\<lfloor>r\<rfloor> < 0" by (simp only: of_int_less_0_iff)
    then show ?thesis by linarith
  qed
  then show ?thesis using n
    by (auto simp: round_half_even_def Let_def not_less)
qed

lemma float64_nonneg: "0 \<le> x \<Longrightarrow> 0 \<le> float64 x"
  using pow2_pos[of "max (- 1022) (exponent x) - 52"]
  by (simp add: float64_def Let_def round_half_even_nonneg zero_le_mult_iff zero_le_divide_iff)

lemma float64_nonpos:
  assumes "x \<le> 0"
  shows "float64 x \<le> 0"
proof -
  let ?u = "pow2 (max (- 1022) (exponent x) - 52)"
  have u: "0 < ?u" by (rule pow2_pos)
  then have "x / ?u \<le> 0" using assms by (simp add: divide_le_0_iff)
  then have "round_half_even (x / ?u) \<le> 0" by (rule round_half_even_nonpos)
  then have "of_int (round_half_even (x / ?u)) * ?u \<le> 0"
    using u by (simp add: mult_le_0_iff)
  then show ?thesis by (simp add: float64_def Let_def)
qed

lemma fmul_nonneg: "0 \<le> a \<Longrightarrow> 0 \<le> b \<Longrightarrow> 0 \<le> fmul a b"
  by (simp add: fmul_def float64_nonneg)

lemma fmul_nonpos:
  assumes "a * b \<le> 0"
  shows "fmul a b \<le> 0"
proof -
  from assms have "(a \<le> 0 \<and> 0 \<le> b) \<or> (0 \<le> a \<and> b \<le> 0)"
    by (simp add: mult_le_0_iff) linarith
  then have "float64 a * float64 b \<le> 0"
    using float64_nonneg float64_nonpos by (auto simp: mult_le_0_iff)
  then show ?thesis unfolding fmul_def by (rule float64_nonpos)
qed

text \<open>
  The exponent brackets its argument, and \<open>float64\<close> is within half a unit in the last
  place of it.
\<close>

lemma pow2_Suc: "pow2 (e + 1) = 2 * pow2 e"
proof (cases "0 \<le> e")
  case True
  then show ?thesis by (simp add: pow2_def nat_add_distrib)
next
  case False
  then have "nat (- e) = Suc (nat (- (e + 1)))" by simp
  then show ?thesis using False by (simp add: pow2_def)
qed

lemma pow2_pred: "pow2 (e - 1) = pow2 e / 2"
  using pow2_Suc[of "e - 1"] by simp

lemma exponent_bounds:
  "x \<noteq> 0 \<Longrightarrow> pow2 (exponent x) \<le> \<bar>x\<bar> \<and> \<bar>x\<bar> < pow2 (exponent x + 1)"
proof (induction x rule: exponent.induct)
  case (1 x)
  consider "2 \<le> \<bar>x\<bar>" | "\<bar>x\<bar> < 1" | "1 \<le> \<bar>x\<bar>" "\<bar>x\<bar> < 2"
    by linarith
  then show ?case
  proof cases
    case 1
    have e: "exponent x = exponent (x / 2) + 1"
      using 1 "1.prems" by (subst exponent.simps) simp
    have ih: "pow2 (exponent (x / 2)) \<le> \<bar>x / 2\<bar> \<and> \<bar>x / 2\<bar> < pow2 (exponent (x / 2) + 1)"
      using "1.IH"(1)[OF "1.prems" 1] "1.prems" by simp
    have h: "\<bar>x / 2\<bar> = \<bar>x\<bar> / 2" by simp
    have a: "pow2 (exponent (x / 2) + 1) = 2 * pow2 (exponent (x / 2))" by (rule pow2_Suc)
    have b: "pow2 (exponent (x / 2) + 1 + 1) = 2 * pow2 (exponent (x / 2) + 1)" by (rule pow2_Suc)
    show ?thesis unfolding e using ih unfolding h a b by linarith
  next
    case 2
    have n2: "\<not> 2 \<le> \<bar>x\<bar>" using 2 by simp
    have e: "exponent x = exponent (2 * x) - 1"
      using 2 "1.prems" by (subst exponent.simps) simp
    have ih: "pow2 (exponent (2 * x)) \<le> \<bar>2 * x\<bar> \<and> \<bar>2 * x\<bar> < pow2 (exponent (2 * x) + 1)"
      using "1.IH"(2)[OF "1.prems" n2 2] "1.prems" by simp
    have h: "\<bar>2 * x\<bar> = 2 * \<bar>x\<bar>" by (simp add: abs_mult)
    have a: "pow2 (exponent (2 * x) + 1) = 2 * pow2 (exponent (2 * x))" by (rule pow2_Suc)
    have b: "pow2 (exponent (2 * x) - 1) = pow2 (exponent (2 * x)) / 2" by (rule pow2_pred)
    have c: "exponent (2 * x) - 1 + 1 = exponent (2 * x)" by simp
    show ?thesis unfolding e c using ih unfolding h a b by linarith
  next
    case 3
    have "exponent x = 0"
      using 3 "1.prems" by (subst exponent.simps) simp
    then show ?thesis using 3 by (simp add: pow2_def)
  qed
qed

lemma round_half_even_error: "\<bar>real_of_int (round_half_even r) - r\<bar> \<le> 1 / 2"
proof -
  have "real_of_int \<lfloor>r\<rfloor> \<le> r" "r < real_of_int \<lfloor>r\<rfloor> + 1" by linarith+
  then show ?thesis by (auto simp: round_half_even_def Let_def)
qed

lemma float64_error:
  "\<bar>float64 x - x\<bar> \<le> pow2 (max (- 1022) (exponent x) - 52) / 2"
proof -
  let ?u = "pow2 (max (- 1022) (exponent x) - 52)"
  have u: "0 < ?u" by (rule pow2_pos)
  have "float64 x - x = (real_of_int (round_half_even (x / ?u)) - x / ?u) * ?u"
    using u by (simp add: float64_def Let_def algebra_simps)
  then have "\<bar>float64 x - x\<bar> = \<bar>real_of_int (round_half_even (x / ?u)) - x / ?u\<bar> * ?u"
    using u by (simp add: abs_mult)
  also have "\<dots> \<le> (1 / 2) * ?u"
    using u round_half_even_error[of "x / ?u"] by (intro mult_right_mono) simp_all
  finally show ?thesis by simp
qed

lemmas float64_eval =
  fmul_def float64_def pow2_def round_half_even_def exponent.simps Let_def

text \<open>
  The model against the double arithmetic of the program at four points where
  truncating the exact product gives another integer.
\<close>

lemma double_products_checked:
  "py_int (fmul (29 / 100) (real_of_int 100)) = 28"
  "py_int (fmul (9 / 1000) (real_of_int 8000)) = 72"
  "py_int (fmul (fmul (real_of_int 1800) (5 / 100)) (7 / 10)) = 62"
  "py_int (fmul (fmul (real_of_int 8000) (5 / 100)) (15 / 1000)) = 6"
  by (simp_all add: float64_eval py_int_def)

lemma then_do_simps [simp]:
  "then_do (Inl e) f = Inl e"
  "then_do (Inr v) f = f v"
  by (simp_all add: then_do_def)

lemma py_int_nonneg: "0 \<le> x \<Longrightarrow> py_int x = \<lfloor>x\<rfloor>"
  by (simp add: py_int_def)

lemma py_int_ge0: "0 \<le> x \<Longrightarrow> 0 \<le> py_int x"
  by (simp add: py_int_def)

lemma length_slice_to: "0 \<le> n \<Longrightarrow> n \<le> int (length a) \<Longrightarrow> int (length (slice_to n a)) = n"
  by (simp add: slice_to_def)

lemma slice_to_all: "n = int (length a) \<Longrightarrow> slice_to n a = a"
  by (simp add: slice_to_def)

lemma length_concat_replicate: "length (concat (replicate n a)) = n * length a"
  by (induction n) simp_all

lemma ceil_div_covers:
  assumes "0 < b"
  shows "a \<le> \<lceil>real_of_int a / real_of_int b\<rceil> * b"
proof -
  let ?q = "real_of_int a / real_of_int b"
  have b0: "0 < real_of_int b" using assms by simp
  have "?q * real_of_int b \<le> real_of_int \<lceil>?q\<rceil> * real_of_int b"
    by (rule mult_right_mono[OF le_of_int_ceiling]) (use b0 in simp)
  moreover have "?q * real_of_int b = real_of_int a"
    using b0 by simp
  ultimately have "real_of_int a \<le> real_of_int (\<lceil>?q\<rceil> * b)"
    by simp
  then show ?thesis by (simp only: of_int_le_iff)
qed

lemma ceil_div_nonneg: "0 \<le> a \<Longrightarrow> 0 < b \<Longrightarrow> 0 \<le> \<lceil>real_of_int a / real_of_int b\<rceil>"
  by (simp add: ceiling_le_iff less_le_trans[of "-1" 0] zero_le_ceiling le_less_trans[of _ 0])

text \<open>Tiling \<open>ceil(t / len)\<close> copies and cutting to \<open>t\<close> gives exactly \<open>t\<close> samples.\<close>

lemma tile_slice_length:
  assumes "s \<noteq> []" "0 \<le> t"
  shows "\<exists>n tiled. ceil_div t (int (length s)) = Inr n \<and> tile s n = Inr tiled
           \<and> 0 \<le> n \<and> tiled = concat (replicate (nat n) s)
           \<and> t \<le> int (length tiled) \<and> int (length (slice_to t tiled)) = t"
proof -
  let ?n = "\<lceil>real_of_int t / real_of_int (int (length s))\<rceil>"
  have pos: "0 < int (length s)" using assms by simp
  have n0: "0 \<le> ?n" using ceil_div_nonneg[OF assms(2) pos] .
  have cov: "t \<le> ?n * int (length s)" using ceil_div_covers[OF pos] .
  have len: "int (length (concat (replicate (nat ?n) s))) = ?n * int (length s)"
    using n0 by (simp add: length_concat_replicate)
  show ?thesis
    using pos n0 cov len assms(2)
    by (simp add: ceil_div_def tile_def length_slice_to del: of_int_of_nat_eq)
qed

section \<open>Order of the checks in extend\_to\_target\_length\<close>

text \<open>
  C10. In \<open>extend_to_target_length\<close> the length is checked before the method: a signal
  of at least \<open>target_length\<close> samples is returned cut to \<open>audio[:target_length]\<close>
  whatever the method string is, and with a method that is not one of the four known
  names the call raises the unknown-method error exactly when the signal is shorter
  than the target.
\<close>

theorem extend_to_target_length_checks_length_first:
  "(target_length self \<le> int (length audio) \<longrightarrow>
      extend_to_target_length time_stretch self audio method
        = Inr (slice_to (target_length self) audio)) \<and>
   (method \<notin> {''stretch'', ''repeat'', ''stretch_and_repeat'', ''pad_silence''} \<longrightarrow>
      (extend_to_target_length time_stretch self audio method = Inl ValueError
         \<longleftrightarrow> int (length audio) < target_length self))"
  by (auto simp: extend_to_target_length_def Let_def)

theorem extend_to_target_length_checks_length_first_witness:
  "extend_to_target_length resample_stretch (AudioAugmentor_init 2 1) [1, 2, 3] ''bogus'' = Inr [1, 2] \<and>
   extend_to_target_length resample_stretch (AudioAugmentor_init 2 1) [1] ''bogus'' = Inl ValueError"
  using extend_to_target_length_checks_length_first
          [of "AudioAugmentor_init 2 1" "[1, 2, 3]" resample_stretch "''bogus''"]
        extend_to_target_length_checks_length_first
          [of "AudioAugmentor_init 2 1" "[1]" resample_stretch "''bogus''"]
  by (simp add: AudioAugmentor_init_def py_int_def float64_eval slice_to_def)

section \<open>Silence padding\<close>

text \<open>
  C3, as the code has it. For a signal shorter than the target, with
  \<open>needed = target_length - len(audio)\<close>: the strategy \<open>pad_silence\<close> of
  \<open>extend_to_target_length\<close> returns \<open>target_length\<close> samples, the signal verbatim from
  index \<open>needed // 2\<close> on, and every other sample exactly zero;
  \<open>extend_audio_method4_silence_padding\<close> returns \<open>target_length\<close> samples with the signal
  verbatim from index \<open>needed // 2\<close> on, and every other sample is a draw of the random
  source (normal, scale 0.001), not a zero.
\<close>

theorem pad_silence_layout:
  "(int (length audio) < target_length self \<longrightarrow>
      (\<exists>out. extend_to_target_length time_stretch self audio ''pad_silence'' = Inr out
         \<and> int (length out) = target_length self
         \<and> (\<forall>i < length audio.
               out ! (nat ((target_length self - int (length audio)) div 2) + i) = audio ! i)
         \<and> (\<forall>j < length out.
               j < nat ((target_length self - int (length audio)) div 2)
               \<or> nat ((target_length self - int (length audio)) div 2) + length audio \<le> j
               \<longrightarrow> out ! j = 0))) \<and>
   (int (length audio) < py_int (fmul target_seconds (real_of_int sr)) \<longrightarrow>
      (\<exists>out. extend_audio_method4_silence_padding draws audio sr target_seconds = Inr out
         \<and> int (length out) = py_int (fmul target_seconds (real_of_int sr))
         \<and> (\<forall>i < length audio.
               out ! (nat ((py_int (fmul target_seconds (real_of_int sr)) - int (length audio)) div 2) + i)
                 = audio ! i)
         \<and> (\<forall>j < length out.
               (j < nat ((py_int (fmul target_seconds (real_of_int sr)) - int (length audio)) div 2)
                  \<longrightarrow> out ! j = draws j)
               \<and> (nat ((py_int (fmul target_seconds (real_of_int sr)) - int (length audio)) div 2)
                     + length audio \<le> j
                  \<longrightarrow> out ! j = draws (j - length audio)))))"
proof (intro conjI impI)
  assume short: "int (length audio) < target_length self"
  define before where "before = nat ((target_length self - int (length audio)) div 2)"
  define after where
    "after = nat (target_length self - int (length audio)
                    - (target_length self - int (length audio)) div 2)"
  let ?out = "replicate before 0 @ audio @ replicate after (0::real)"
  have run: "extend_to_target_length time_stretch self audio ''pad_silence'' = Inr ?out"
    using short by (simp add: extend_to_target_length_def Let_def before_def after_def)
  have len: "int (length ?out) = target_length self"
    using short unfolding before_def after_def by simp
  have inside: "\<forall>i < length audio. ?out ! (before + i) = audio ! i"
    by (simp add: nth_append)
  have outside: "\<forall>j < length ?out. j < before \<or> before + length audio \<le> j \<longrightarrow> ?out ! j = 0"
    by (auto simp: nth_append)
  show "\<exists>out. extend_to_target_length time_stretch self audio ''pad_silence'' = Inr out
         \<and> int (length out) = target_length self
         \<and> (\<forall>i < length audio.
               out ! (nat ((target_length self - int (length audio)) div 2) + i) = audio ! i)
         \<and> (\<forall>j < length out.
               j < nat ((target_length self - int (length audio)) div 2)
               \<or> nat ((target_length self - int (length audio)) div 2) + length audio \<le> j
               \<longrightarrow> out ! j = 0)"
    using run len inside outside unfolding before_def by blast
next
  let ?t = "py_int (fmul target_seconds (real_of_int sr))"
  assume short: "int (length audio) < ?t"
  define before where "before = nat ((?t - int (length audio)) div 2)"
  define after where "after = nat (?t - int (length audio) - (?t - int (length audio)) div 2)"
  let ?out = "map draws [0 ..< before] @ audio @ map draws [before ..< before + after]"
  have nonneg: "0 \<le> (?t - int (length audio)) div 2"
    "0 \<le> ?t - int (length audio) - (?t - int (length audio)) div 2"
    using short by linarith+
  have run: "extend_audio_method4_silence_padding draws audio sr target_seconds = Inr ?out"
    using nonneg
    by (simp add: extend_audio_method4_silence_padding_def Let_def normal_def before_def after_def)
  have len: "int (length ?out) = ?t"
    using short unfolding before_def after_def by simp
  have inside: "\<forall>i < length audio. ?out ! (before + i) = audio ! i"
    by (simp add: nth_append)
  have outside: "\<forall>j < length ?out. (j < before \<longrightarrow> ?out ! j = draws j)
      \<and> (before + length audio \<le> j \<longrightarrow> ?out ! j = draws (j - length audio))"
    by (auto simp: nth_append)
  show "\<exists>out. extend_audio_method4_silence_padding draws audio sr target_seconds = Inr out
         \<and> int (length out) = ?t
         \<and> (\<forall>i < length audio. out ! (nat ((?t - int (length audio)) div 2) + i) = audio ! i)
         \<and> (\<forall>j < length out.
               (j < nat ((?t - int (length audio)) div 2) \<longrightarrow> out ! j = draws j)
               \<and> (nat ((?t - int (length audio)) div 2) + length audio \<le> j
                  \<longrightarrow> out ! j = draws (j - length audio)))"
    using run len inside outside unfolding before_def by blast
qed

theorem pad_silence_layout_witness:
  "int (length [1::real]) < target_length (AudioAugmentor_init 3 1) \<and>
   extend_to_target_length resample_stretch (AudioAugmentor_init 3 1) [1] ''pad_silence''
     = Inr [0, 1, 0] \<and>
   int (length [1::real]) < py_int (fmul 3 (real_of_int 1)) \<and>
   extend_audio_method4_silence_padding constant_draws [1] 1 3 = Inr [1 / 1000, 1, 1 / 1000]"
  using pad_silence_layout
          [of "[1]" "AudioAugmentor_init 3 1" resample_stretch 3 1 constant_draws]
  by (simp add: AudioAugmentor_init_def py_int_def float64_eval extend_to_target_length_def
        extend_audio_method4_silence_padding_def normal_def constant_draws_def upt_conv_Cons)

text \<open>
  C3, as the claim states it, fails on \<open>extend_audio_method4_silence_padding\<close>: on the
  signal \<open>[1]\<close> with a target of three samples and draws equal to 0.001 the two
  padding samples are 0.001, and the result is not \<open>[0, 1, 0]\<close>.
\<close>

theorem silence_padding_is_noise:
  "extend_audio_method4_silence_padding constant_draws [1] 1 3 = Inr [1 / 1000, 1, 1 / 1000] \<and>
   extend_audio_method4_silence_padding constant_draws [1] 1 3 \<noteq> Inr [0, 1, 0]"
  by (simp add: extend_audio_method4_silence_padding_def py_int_def float64_eval normal_def
        constant_draws_def upt_conv_Cons)

section \<open>Signals at least as long as the target\<close>

text \<open>
  C8. A strategy given a signal of at least \<open>target_length\<close> samples returns its first
  \<open>target_length\<close> samples. \<open>extend_to_target_length\<close> does so for \<open>pad_silence\<close>;
  \<open>extend_audio_method4_silence_padding\<close> does not: on three samples and a target of
  two it asks the random source for a negative number of draws, which raises.
\<close>

theorem silence_padding_raises_on_long_input:
  "extend_audio_method4_silence_padding draws [1, 2, 3] 1 2 = Inl ValueError \<and>
   extend_to_target_length time_stretch (AudioAugmentor_init 2 1) [1, 2, 3] ''pad_silence'' = Inr [1, 2]"
  by (simp add: extend_audio_method4_silence_padding_def extend_to_target_length_def
        AudioAugmentor_init_def py_int_def float64_eval normal_def slice_to_def)

section \<open>The reverb\<close>

lemma delayed_sum_nth:
  fixes audio :: signal
  assumes "i < length audio"
  shows "take (length audio)
           (take d (audio @ replicate d 0)
              @ map2 (+) (drop d (audio @ replicate d 0)) (map (\<lambda>x. x * c) audio)) ! i
         = (if i < d then audio ! i else audio ! i + c * audio ! (i - d))"
proof (cases "i < d")
  case True
  then show ?thesis using assms by (simp add: nth_append)
next
  case False
  then have "i - d < length audio" using assms by simp
  then show ?thesis using assms False
    by (auto simp: nth_append min_def)
qed

lemma delayed_sum_length:
  fixes audio :: signal
  shows "length (take (length audio)
           (take d (audio @ replicate d 0)
              @ map2 (+) (drop d (audio @ replicate d 0)) (map (\<lambda>x. x * c) audio)))
         = length audio"
  by simp

text \<open>
  C4, as the code has it. For a room size in \<open>[0, 1]\<close> and a sample rate that is not
  negative, \<open>simple_reverb\<close> and \<open>AudioAugmentor.add_reverb\<close> return as many samples as
  the signal has, with \<open>delay = int(sampleRate * 0.05 * roomSize)\<close> (the
  double-precision product, truncated and not rounded to the nearest integer) and
  \<open>decay = 0.3 * roomSize\<close>: \<open>output[i] = signal[i]\<close> for \<open>i < delay\<close> and
  \<open>output[i] = signal[i] + decay * signal[i - delay]\<close> for \<open>delay \<le> i < len(signal)\<close>;
  the tail beyond the signal is dropped.
\<close>

theorem reverb_truncating_delay:
  assumes "0 \<le> roomSize" "roomSize \<le> 1" "0 \<le> sr"
  shows "\<exists>out. simple_reverb audio sr roomSize = Inr out
           \<and> add_reverb (AudioAugmentor_init td sr) audio roomSize = Inr out
           \<and> length out = length audio
           \<and> (\<forall>i < length audio.
                 out ! i =
                   (if i < nat (py_int (fmul (fmul (real_of_int sr) (5 / 100)) roomSize)) then audio ! i
                    else audio ! i
                         + ((3 / 10) * roomSize)
                           * audio ! (i - nat (py_int (fmul (fmul (real_of_int sr) (5 / 100)) roomSize)))))"
proof -
  define d where "d = nat (py_int (fmul (fmul (real_of_int sr) (5 / 100)) roomSize))"
  define c where "c = (3 / 10) * roomSize"
  let ?out = "take (length audio)
           (take d (audio @ replicate d 0)
              @ map2 (+) (drop d (audio @ replicate d 0)) (map (\<lambda>x. x * c) audio))"
  have nonneg: "0 \<le> fmul (fmul (real_of_int sr) (5 / 100)) roomSize"
    using assms by (intro fmul_nonneg) simp_all
  then have d0: "0 \<le> py_int (fmul (fmul (real_of_int sr) (5 / 100)) roomSize)"
    by (rule py_int_ge0)
  have run: "simple_reverb audio sr roomSize = Inr ?out"
    unfolding simple_reverb_def Let_def using d0 by (simp add: d_def c_def)
  have run2: "add_reverb (AudioAugmentor_init td sr) audio roomSize = Inr ?out"
    using run by (simp add: add_reverb_def AudioAugmentor_init_def)
  have len: "length ?out = length audio" by (rule delayed_sum_length)
  have nth: "\<forall>i < length audio. ?out ! i = (if i < d then audio ! i else audio ! i + c * audio ! (i - d))"
    using delayed_sum_nth by blast
  show ?thesis
    using run run2 len nth unfolding d_def c_def by blast
qed

theorem reverb_truncating_delay_witness:
  "(0::real) \<le> 9 / 10 \<and> (9 / 10 :: real) \<le> 1 \<and> (0::int) \<le> 20 \<and>
   simple_reverb [1, 2] 20 (9 / 10) = Inr [127 / 100, 254 / 100]"
  using reverb_truncating_delay [of "9 / 10" 20 "[1, 2]" 1]
  by (simp add: simple_reverb_def py_int_def float64_eval)

text \<open>
  C4, as the claim states it, fails: at sample rate 20 and room size 0.9 the product
  \<open>0.05 * 20 * 0.9\<close> is 0.9, the code's delay is \<open>int(0.9) = 0\<close> and the echo is added
  to sample 0, while the reference model with \<open>round(0.9) = 1\<close> leaves it unchanged.
\<close>

theorem reverb_delay_is_not_rounded:
  "simple_reverb [1] 20 (9 / 10) = Inr [127 / 100] \<and>
   reverb_reference [1] 20 (9 / 10) = [1]"
  by (simp add: simple_reverb_def reverb_reference_def py_int_def float64_eval round_def)

section \<open>Validation of the configuration\<close>

text \<open>
  C6, as the code has it. An unrecognised method raises \<open>ValueError\<close>: in
  \<open>augment_audio\<close> always, in \<open>extend_to_target_length\<close> when the signal is shorter than
  the target. Neither the target duration nor the sample rate is validated: when their
  product is not positive, \<open>extend_to_target_length\<close> raises nothing and returns
  \<open>audio[:target_length]\<close>, whatever the signal and the method. The stretch rate is not
  validated by the code either: an exception of the external time-stretch is passed on
  as it is.
\<close>

theorem unvalidated_configuration:
  "(method \<notin> {''simple'', ''stretch'', ''comprehensive''} \<longrightarrow>
      augment_audio time_stretch draws self audio method noise_level = Inl ValueError) \<and>
   (method \<notin> {''stretch'', ''repeat'', ''stretch_and_repeat'', ''pad_silence''}
      \<and> int (length audio) < target_length self \<longrightarrow>
      extend_to_target_length time_stretch self audio method = Inl ValueError) \<and>
   (target_seconds * real_of_int sr \<le> 0 \<longrightarrow>
      extend_to_target_length time_stretch (AudioAugmentor_init target_seconds sr) audio method
        = Inr (slice_to (py_int (fmul target_seconds (real_of_int sr))) audio)) \<and>
   (int (length audio) < target_length self
      \<and> time_stretch audio (real (length audio) / real_of_int (target_length self)) = Inl e \<longrightarrow>
      extend_to_target_length time_stretch self audio ''stretch'' = Inl e)"
proof (intro conjI impI)
  assume "method \<notin> {''simple'', ''stretch'', ''comprehensive''}"
  then show "augment_audio time_stretch draws self audio method noise_level = Inl ValueError"
    by (simp add: augment_audio_def)
next
  assume "method \<notin> {''stretch'', ''repeat'', ''stretch_and_repeat'', ''pad_silence''}
      \<and> int (length audio) < target_length self"
  then show "extend_to_target_length time_stretch self audio method = Inl ValueError"
    by (simp add: extend_to_target_length_def)
next
  assume le: "target_seconds * real_of_int sr \<le> 0"
  then have "fmul target_seconds (real_of_int sr) \<le> 0"
    by (rule fmul_nonpos)
  then have "py_int (fmul target_seconds (real_of_int sr)) \<le> 0"
    by (auto simp: py_int_def ceiling_le_iff)
  then show "extend_to_target_length time_stretch (AudioAugmentor_init target_seconds sr) audio method
        = Inr (slice_to (py_int (fmul target_seconds (real_of_int sr))) audio)"
    by (simp add: extend_to_target_length_def AudioAugmentor_init_def)
next
  assume "int (length audio) < target_length self
      \<and> time_stretch audio (real (length audio) / real_of_int (target_length self)) = Inl e"
  then show "extend_to_target_length time_stretch self audio ''stretch'' = Inl e"
    by (simp add: extend_to_target_length_def)
qed

theorem unvalidated_configuration_witness:
  "''bogus'' \<notin> {''simple'', ''stretch'', ''comprehensive''} \<and>
   augment_audio resample_stretch constant_draws (AudioAugmentor_init 2 1) [1] ''bogus'' 0
     = Inl ValueError \<and>
   ''bogus'' \<notin> {''stretch'', ''repeat'', ''stretch_and_repeat'', ''pad_silence''} \<and>
   int (length [1::real]) < target_length (AudioAugmentor_init 2 1) \<and>
   extend_to_target_length resample_stretch (AudioAugmentor_init 2 1) [1] ''bogus''
     = Inl ValueError \<and>
   (- 2) * real_of_int 1 \<le> 0 \<and>
   extend_to_target_length resample_stretch (AudioAugmentor_init (- 2) 1) [1, 2, 3] ''bogus''
     = Inr [1] \<and>
   resample_stretch [] (real (length ([]::signal)) / real_of_int (target_length (AudioAugmentor_init 2 1)))
     = Inl ParameterError \<and>
   extend_to_target_length resample_stretch (AudioAugmentor_init 2 1) [] ''stretch''
     = Inl ParameterError"
  using unvalidated_configuration
          [of "''bogus''" resample_stretch constant_draws "AudioAugmentor_init 2 1" "[1]" 0 2 1]
        unvalidated_configuration
          [of "''bogus''" resample_stretch constant_draws "AudioAugmentor_init 2 1" "[]" 0 "- 2" 1
              ParameterError]
        unvalidated_configuration
          [of "''bogus''" resample_stretch constant_draws "AudioAugmentor_init 2 1" "[1, 2, 3]" 0 "- 2" 1]
  by (simp add: AudioAugmentor_init_def py_int_def float64_eval slice_to_def resample_stretch_def)

text \<open>
  C6, as the claim states it, fails: with a target duration of \<open>-2\<close> seconds at sample
  rate 1 the call is not refused; it returns \<open>audio[:-2]\<close>.
\<close>

theorem nonpositive_duration_is_accepted:
  "extend_to_target_length resample_stretch (AudioAugmentor_init (- 2) 1) [1, 2, 3] ''repeat''
     = Inr [1]"
  by (simp add: extend_to_target_length_def AudioAugmentor_init_def py_int_def float64_eval slice_to_def)

section \<open>Peak normalisation on a silent signal\<close>

text \<open>
  C2. Peak normalisation must leave an all-zero signal unchanged. \<open>normalize_audio\<close>
  does; the last statement of \<open>augment_audio\<close> does not: for the one-sample silent
  signal and a target of two samples, the method \<open>simple\<close> yields two zeros, their
  maximum absolute value is zero, and the result of the call is two NaN.
\<close>

theorem augment_audio_divides_by_zero_peak:
  "augment_audio time_stretch draws (AudioAugmentor_init 2 1) [0] ''simple'' noise_level
     = Inr [NaN, NaN] \<and>
   normalize_audio [0, 0] (95 / 100) = Inr [0, 0]"
  by (simp add: augment_audio_def extend_to_target_length_def AudioAugmentor_init_def
        py_int_def float64_eval ceil_div_def tile_def slice_to_def fix_length_def scale_by_peak_def
        max_abs_def normalize_audio_def numeral_2_eq_2)

section \<open>The seam loops\<close>

lemma length_mul_slice:
  "start + length fade \<le> length a \<Longrightarrow> length (mul_slice a start fade) = length a"
  by (simp add: mul_slice_def)

lemma nth_mul_slice_inside:
  assumes "start + length fade \<le> length a" "j < length fade"
  shows "mul_slice a start fade ! (start + j) = a ! (start + j) * fade ! j"
proof -
  have h: "length fade \<le> length a - start" "j < length a - start"
    using assms by linarith+
  show ?thesis using assms h by (simp add: mul_slice_def nth_append)
qed

lemma nth_mul_slice_after:
  assumes "start + length fade \<le> length a" "start + length fade + j < length a"
  shows "mul_slice a start fade ! (start + length fade + j) = a ! (start + length fade + j)"
proof -
  have h: "length fade \<le> length a - start"
    using assms by linarith
  show ?thesis using assms h by (simp add: mul_slice_def nth_append add.assoc)
qed

lemma nth_mul_slice:
  assumes "start + length fade \<le> length a" "i < length a"
  shows "mul_slice a start fade ! i
         = (if start \<le> i \<and> i < start + length fade then a ! i * fade ! (i - start) else a ! i)"
proof -
  consider "i < start" | "start \<le> i" "i < start + length fade" | "start + length fade \<le> i"
    by linarith
  then show ?thesis
  proof cases
    case 1
    then show ?thesis using assms by (simp add: mul_slice_def nth_append)
  next
    case 2
    then have "i - start < length fade" by linarith
    from nth_mul_slice_inside[OF assms(1) this] 2 show ?thesis by simp
  next
    case 3
    then have "start + length fade + (i - (start + length fade)) < length a"
      using assms by linarith
    from nth_mul_slice_after[OF assms(1) this] 3 show ?thesis by simp
  qed
qed

lemma linspace_nat:
  "linspace start stop (int n)
     = Inr (if n = 1 then [start]
            else map (\<lambda>j. start + real j * ((stop - start) / real_of_int (int n - 1))) [0 ..< n])"
  by (simp add: linspace_def)

lemma linspace_length: "linspace start stop (int n) = Inr fade \<Longrightarrow> length fade = n"
  by (auto simp: linspace_def split: if_splits)

lemma linspace_nth:
  "linspace start stop (int n) = Inr fade \<Longrightarrow> j < n \<Longrightarrow>
   fade ! j = (if n = 1 then start else start + real j * ((stop - start) / (real n - 1)))"
  by (auto simp: linspace_def split: if_splits)

lemma linspace_total: "\<exists>fade. linspace start stop (int n) = Inr fade"
  by (simp add: linspace_def)

text \<open>One pass of the body of the fade-in loop, sample by sample.\<close>

lemma fade_in_step_effect:
  assumes "linspace 0 1 (int F) = Inr fade"
  shows "\<exists>r. fade_in_step p (int F) b k = Inr r \<and> length r = length b
           \<and> (\<forall>i < length b.
                 r ! i = (if k * p + F < length b \<and> k * p \<le> i \<and> i < k * p + F
                          then b ! i * fade ! (i - k * p) else b ! i))"
proof -
  have lf: "length fade = F" using assms by (rule linspace_length)
  show ?thesis
  proof (cases "k * p + F < length b")
    case True
    then have guard: "int k * int p < int (length b) \<and> int k * int p + int F < int (length b)"
      by (metis add_lessD1 of_nat_add of_nat_less_iff of_nat_mult)
    have fits: "k * p + length fade \<le> length b" using True lf by simp
    have run: "fade_in_step p (int F) b k = Inr (mul_slice b (k * p) fade)"
      using guard assms by (simp add: fade_in_step_def Let_def nat_mult_distrib)
    show ?thesis
      using run True length_mul_slice[OF fits] nth_mul_slice[OF fits] lf by simp
  next
    case False
    then have "\<not> (int k * int p + int F < int (length b))"
      by (metis of_nat_add of_nat_less_iff of_nat_mult)
    then have "fade_in_step p (int F) b k = Inr b"
      by (simp add: fade_in_step_def Let_def)
    then show ?thesis using False by simp
  qed
qed

lemma windows_disjoint:
  fixes p F k k' j :: nat
  assumes "F \<le> p" "k \<noteq> k'" "j < F"
  shows "\<not> (k' * p \<le> k * p + j \<and> k * p + j < k' * p + F)"
proof (cases "k' < k")
  case True
  then have "Suc k' * p \<le> k * p" by (intro mult_le_mono1) simp
  then have "k' * p + p \<le> k * p" by simp
  then show ?thesis using assms by linarith
next
  case False
  then have "Suc k \<le> k'" using assms by simp
  then have "Suc k * p \<le> k' * p" by (intro mult_le_mono1)
  then have "k * p + p \<le> k' * p" by simp
  then show ?thesis using assms by linarith
qed

lemma fade_in_loop_frame:
  assumes lin: "linspace 0 1 (int F) = Inr fade"
  shows "\<exists>r. for_each (fade_in_step p (int F)) ks b = Inr r \<and> length r = length b
           \<and> (\<forall>i < length b.
                 (\<forall>k \<in> set ks. \<not> (k * p + F < length b \<and> k * p \<le> i \<and> i < k * p + F))
                 \<longrightarrow> r ! i = b ! i)"
proof (induction ks arbitrary: b)
  case Nil
  show ?case by simp
next
  case (Cons k' ks)
  from fade_in_step_effect[OF lin, of p b k'] obtain b' where
    step: "fade_in_step p (int F) b k' = Inr b'" and lb': "length b' = length b"
    and nb': "\<forall>i < length b.
                 b' ! i = (if k' * p + F < length b \<and> k' * p \<le> i \<and> i < k' * p + F
                          then b ! i * fade ! (i - k' * p) else b ! i)"
    by blast
  from Cons.IH[of b'] obtain r where
    run: "for_each (fade_in_step p (int F)) ks b' = Inr r" and lr: "length r = length b'"
    and fr: "\<forall>i < length b'.
                 (\<forall>k \<in> set ks. \<not> (k * p + F < length b' \<and> k * p \<le> i \<and> i < k * p + F))
                 \<longrightarrow> r ! i = b' ! i"
    by blast
  have "for_each (fade_in_step p (int F)) (k' # ks) b = Inr r"
    using step run by simp
  moreover have "length r = length b" using lr lb' by simp
  moreover have "\<forall>i < length b.
                 (\<forall>k \<in> set (k' # ks). \<not> (k * p + F < length b \<and> k * p \<le> i \<and> i < k * p + F))
                 \<longrightarrow> r ! i = b ! i"
  proof (intro allI impI)
    fix i assume i: "i < length b"
      and out: "\<forall>k \<in> set (k' # ks). \<not> (k * p + F < length b \<and> k * p \<le> i \<and> i < k * p + F)"
    from out have "\<forall>k \<in> set ks. \<not> (k * p + F < length b' \<and> k * p \<le> i \<and> i < k * p + F)"
      using lb' by simp
    with fr i lb' have "r ! i = b' ! i" by simp
    moreover from out have "\<not> (k' * p + F < length b \<and> k' * p \<le> i \<and> i < k' * p + F)"
      by simp
    with nb' i have "b' ! i = b ! i" by auto
    ultimately show "r ! i = b ! i" by simp
  qed
  ultimately show ?case by blast
qed

lemma fade_in_loop_effect:
  assumes lin: "linspace 0 1 (int F) = Inr fade"
    and "distinct ks" "F \<le> p" "k \<in> set ks" "k * p + F < length b" "j < F"
  shows "\<exists>r. for_each (fade_in_step p (int F)) ks b = Inr r
           \<and> r ! (k * p + j) = b ! (k * p + j) * fade ! j"
  using assms(2,4,5)
proof (induction ks arbitrary: b)
  case Nil
  then show ?case by simp
next
  case (Cons k' ks)
  from fade_in_step_effect[OF lin, of p b k'] obtain b' where
    step: "fade_in_step p (int F) b k' = Inr b'" and lb': "length b' = length b"
    and nb': "\<forall>i < length b.
                 b' ! i = (if k' * p + F < length b \<and> k' * p \<le> i \<and> i < k' * p + F
                          then b ! i * fade ! (i - k' * p) else b ! i)"
    by blast
  have inb: "k * p + j < length b" using Cons.prems(3) \<open>j < F\<close> by linarith
  show ?case
  proof (cases "k = k'")
    case True
    from fade_in_loop_frame[OF lin, of p ks b'] obtain r where
      run: "for_each (fade_in_step p (int F)) ks b' = Inr r"
      and fr: "\<forall>i < length b'.
                 (\<forall>k \<in> set ks. \<not> (k * p + F < length b' \<and> k * p \<le> i \<and> i < k * p + F))
                 \<longrightarrow> r ! i = b' ! i"
      by blast
    have "\<forall>k'' \<in> set ks. \<not> (k'' * p + F < length b' \<and> k'' * p \<le> k * p + j \<and> k * p + j < k'' * p + F)"
    proof
      fix k'' assume "k'' \<in> set ks"
      then have "k \<noteq> k''" using Cons.prems(1) True by auto
      from windows_disjoint[OF \<open>F \<le> p\<close> this \<open>j < F\<close>]
      show "\<not> (k'' * p + F < length b' \<and> k'' * p \<le> k * p + j \<and> k * p + j < k'' * p + F)"
        by blast
    qed
    with fr inb lb' have "r ! (k * p + j) = b' ! (k * p + j)" by simp
    moreover have "b' ! (k * p + j) = b ! (k * p + j) * fade ! j"
      using nb' inb True Cons.prems(3) \<open>j < F\<close> by simp
    moreover have "for_each (fade_in_step p (int F)) (k' # ks) b = Inr r"
      using step run by simp
    ultimately show ?thesis by simp
  next
    case False
    then have kin: "k \<in> set ks" using Cons.prems(2) by simp
    have dist: "distinct ks" using Cons.prems(1) by simp
    have act: "k * p + F < length b'" using Cons.prems(3) lb' by simp
    from Cons.IH[OF dist kin act] obtain r where
      run: "for_each (fade_in_step p (int F)) ks b' = Inr r"
      and eff: "r ! (k * p + j) = b' ! (k * p + j) * fade ! j"
      by blast
    from windows_disjoint[OF \<open>F \<le> p\<close> False \<open>j < F\<close>]
    have "\<not> (k' * p + F < length b \<and> k' * p \<le> k * p + j \<and> k * p + j < k' * p + F)"
      by blast
    with nb' inb have "b' ! (k * p + j) = b ! (k * p + j)" by auto
    moreover have "for_each (fade_in_step p (int F)) (k' # ks) b = Inr r"
      using step run by simp
    ultimately show ?thesis using eff by simp
  qed
qed

lemma crossfade_step_effect:
  assumes lout: "linspace 1 0 (int F) = Inr fade_out"
    and lin: "linspace 0 1 (int F) = Inr fade_in"
  shows "\<exists>r. crossfade_step p (int F) b k = Inr r \<and> length r = length b
           \<and> (\<forall>i < length b.
                 r ! i = (if k * p + F < length b \<and> k * p \<le> i \<and> i < k * p + F
                            then b ! i * fade_in ! (i - k * p)
                          else if k * p + F < length b \<and> F \<le> k * p \<and> k * p - F \<le> i \<and> i < k * p
                            then b ! i * fade_out ! (i - (k * p - F))
                          else b ! i))"
proof -
  have lfi: "length fade_in = F" using lin by (rule linspace_length)
  have lfo: "length fade_out = F" using lout by (rule linspace_length)
  show ?thesis
  proof (cases "k * p + F < length b")
    case True
    then have guard: "int k * int p < int (length b) \<and> int k * int p + int F < int (length b)"
      by (metis add_lessD1 of_nat_add of_nat_less_iff of_nat_mult)
    define b1 where
      "b1 = (if F \<le> k * p then mul_slice b (k * p - F) fade_out else b)"
    have fits_out: "F \<le> k * p \<Longrightarrow> (k * p - F) + length fade_out \<le> length b"
      using True lfo by simp
    have lb1: "length b1 = length b"
      using length_mul_slice[OF fits_out] by (simp add: b1_def)
    have nb1: "\<forall>i < length b. b1 ! i =
        (if F \<le> k * p \<and> k * p - F \<le> i \<and> i < k * p then b ! i * fade_out ! (i - (k * p - F))
         else b ! i)"
    proof (cases "F \<le> k * p")
      case le: True
      show ?thesis
        using nth_mul_slice[OF fits_out[OF le]] le lfo by (simp add: b1_def)
    next
      case False
      then show ?thesis by (simp add: b1_def)
    qed
    have fits_in: "k * p + length fade_in \<le> length b1" using True lfi lb1 by simp
    have cond: "(0 \<le> int k * int p - int F) = (F \<le> k * p)"
      by (metis of_nat_le_iff of_nat_mult diff_ge_0_iff_ge)
    have idx: "F \<le> k * p \<Longrightarrow> nat (int k * int p - int F) = k * p - F"
      by (simp add: nat_diff_distrib' nat_mult_distrib)
    have run: "crossfade_step p (int F) b k = Inr (mul_slice b1 (k * p) fade_in)"
      using guard lout lin cond idx
      by (simp add: crossfade_step_def Let_def b1_def nat_mult_distrib)
    have "\<forall>i < length b. mul_slice b1 (k * p) fade_in ! i =
        (if k * p \<le> i \<and> i < k * p + F then b ! i * fade_in ! (i - k * p)
         else if F \<le> k * p \<and> k * p - F \<le> i \<and> i < k * p
           then b ! i * fade_out ! (i - (k * p - F))
         else b ! i)"
    proof (intro allI impI)
      fix i assume i: "i < length b"
      then have i1: "i < length b1" using lb1 by simp
      show "mul_slice b1 (k * p) fade_in ! i =
        (if k * p \<le> i \<and> i < k * p + F then b ! i * fade_in ! (i - k * p)
         else if F \<le> k * p \<and> k * p - F \<le> i \<and> i < k * p
           then b ! i * fade_out ! (i - (k * p - F))
         else b ! i)"
        using nth_mul_slice[OF fits_in i1] nb1 i lfi by auto
    qed
    then show ?thesis
      using run True length_mul_slice[OF fits_in] lb1 by simp
  next
    case False
    then have "\<not> (int k * int p + int F < int (length b))"
      by (metis of_nat_add of_nat_less_iff of_nat_mult)
    then have "crossfade_step p (int F) b k = Inr b"
      by (simp add: crossfade_step_def Let_def)
    then show ?thesis using False by simp
  qed
qed

lemma crossfade_windows_disjoint:
  fixes p F k k' i :: nat
  assumes "2 * F \<le> p" "k \<noteq> k'"
    and "(k * p \<le> i \<and> i < k * p + F) \<or> (F \<le> k * p \<and> k * p - F \<le> i \<and> i < k * p)"
  shows "\<not> ((k' * p \<le> i \<and> i < k' * p + F) \<or> (F \<le> k' * p \<and> k' * p - F \<le> i \<and> i < k' * p))"
proof (cases "k' < k")
  case True
  then have "Suc k' * p \<le> k * p" by (intro mult_le_mono1) simp
  then have "k' * p + p \<le> k * p" by simp
  then show ?thesis using assms by linarith
next
  case False
  then have "Suc k \<le> k'" using assms by simp
  then have "Suc k * p \<le> k' * p" by (intro mult_le_mono1)
  then have "k * p + p \<le> k' * p" by simp
  then show ?thesis using assms by linarith
qed

lemma crossfade_loop_frame:
  assumes lout: "linspace 1 0 (int F) = Inr fade_out"
    and lin: "linspace 0 1 (int F) = Inr fade_in"
  shows "\<exists>r. for_each (crossfade_step p (int F)) ks b = Inr r \<and> length r = length b
           \<and> (\<forall>i < length b.
                 (\<forall>k \<in> set ks. \<not> (k * p + F < length b
                      \<and> ((k * p \<le> i \<and> i < k * p + F)
                          \<or> (F \<le> k * p \<and> k * p - F \<le> i \<and> i < k * p))))
                 \<longrightarrow> r ! i = b ! i)"
proof (induction ks arbitrary: b)
  case Nil
  show ?case by simp
next
  case (Cons k' ks)
  from crossfade_step_effect[OF lout lin, of p b k'] obtain b' where
    step: "crossfade_step p (int F) b k' = Inr b'" and lb': "length b' = length b"
    and nb': "\<forall>i < length b.
                 b' ! i = (if k' * p + F < length b \<and> k' * p \<le> i \<and> i < k' * p + F
                            then b ! i * fade_in ! (i - k' * p)
                          else if k' * p + F < length b \<and> F \<le> k' * p \<and> k' * p - F \<le> i \<and> i < k' * p
                            then b ! i * fade_out ! (i - (k' * p - F))
                          else b ! i)"
    by blast
  from Cons.IH[of b'] obtain r where
    run: "for_each (crossfade_step p (int F)) ks b' = Inr r" and lr: "length r = length b'"
    and fr: "\<forall>i < length b'.
                 (\<forall>k \<in> set ks. \<not> (k * p + F < length b'
                      \<and> ((k * p \<le> i \<and> i < k * p + F)
                          \<or> (F \<le> k * p \<and> k * p - F \<le> i \<and> i < k * p))))
                 \<longrightarrow> r ! i = b' ! i"
    by blast
  have "for_each (crossfade_step p (int F)) (k' # ks) b = Inr r"
    using step run by simp
  moreover have "length r = length b" using lr lb' by simp
  moreover have "\<forall>i < length b.
                 (\<forall>k \<in> set (k' # ks). \<not> (k * p + F < length b
                      \<and> ((k * p \<le> i \<and> i < k * p + F)
                          \<or> (F \<le> k * p \<and> k * p - F \<le> i \<and> i < k * p))))
                 \<longrightarrow> r ! i = b ! i"
  proof (intro allI impI)
    fix i assume i: "i < length b"
      and out: "\<forall>k \<in> set (k' # ks). \<not> (k * p + F < length b
                      \<and> ((k * p \<le> i \<and> i < k * p + F)
                          \<or> (F \<le> k * p \<and> k * p - F \<le> i \<and> i < k * p)))"
    from out have "\<forall>k \<in> set ks. \<not> (k * p + F < length b'
                      \<and> ((k * p \<le> i \<and> i < k * p + F)
                          \<or> (F \<le> k * p \<and> k * p - F \<le> i \<and> i < k * p)))"
      using lb' by simp
    with fr i lb' have "r ! i = b' ! i" by simp
    moreover from out have "\<not> (k' * p + F < length b
                      \<and> ((k' * p \<le> i \<and> i < k' * p + F)
                          \<or> (F \<le> k' * p \<and> k' * p - F \<le> i \<and> i < k' * p)))"
      by simp
    with nb' i have "b' ! i = b ! i" by auto
    ultimately show "r ! i = b ! i" by simp
  qed
  ultimately show ?case by blast
qed

lemma crossfade_loop_effect:
  assumes lout: "linspace 1 0 (int F) = Inr fade_out"
    and lin: "linspace 0 1 (int F) = Inr fade_in"
    and "distinct ks" "2 * F \<le> p" "k \<in> set ks" "k * p + F < length b" "i < length b"
  shows "\<exists>r. for_each (crossfade_step p (int F)) ks b = Inr r
           \<and> (k * p \<le> i \<and> i < k * p + F \<longrightarrow> r ! i = b ! i * fade_in ! (i - k * p))
           \<and> (F \<le> k * p \<and> k * p - F \<le> i \<and> i < k * p
                \<longrightarrow> r ! i = b ! i * fade_out ! (i - (k * p - F)))"
  using assms(3,5,6,7)
proof (induction ks arbitrary: b)
  case Nil
  then show ?case by simp
next
  case (Cons k' ks)
  from crossfade_step_effect[OF lout lin, of p b k'] obtain b' where
    step: "crossfade_step p (int F) b k' = Inr b'" and lb': "length b' = length b"
    and nb': "\<forall>i < length b.
                 b' ! i = (if k' * p + F < length b \<and> k' * p \<le> i \<and> i < k' * p + F
                            then b ! i * fade_in ! (i - k' * p)
                          else if k' * p + F < length b \<and> F \<le> k' * p \<and> k' * p - F \<le> i \<and> i < k' * p
                            then b ! i * fade_out ! (i - (k' * p - F))
                          else b ! i)"
    by blast
  have i: "i < length b" by (rule Cons.prems(4))
  show ?case
  proof (cases "k = k'")
    case True
    from crossfade_loop_frame[OF lout lin, of p ks b'] obtain r where
      run: "for_each (crossfade_step p (int F)) ks b' = Inr r"
      and fr: "\<forall>i < length b'.
                 (\<forall>k \<in> set ks. \<not> (k * p + F < length b'
                      \<and> ((k * p \<le> i \<and> i < k * p + F)
                          \<or> (F \<le> k * p \<and> k * p - F \<le> i \<and> i < k * p))))
                 \<longrightarrow> r ! i = b' ! i"
      by blast
    have full: "for_each (crossfade_step p (int F)) (k' # ks) b = Inr r"
      using step run by simp
    have keep: "r ! i = b' ! i"
      if win: "(k * p \<le> i \<and> i < k * p + F) \<or> (F \<le> k * p \<and> k * p - F \<le> i \<and> i < k * p)"
    proof -
      have "\<forall>k'' \<in> set ks. \<not> (k'' * p + F < length b'
                      \<and> ((k'' * p \<le> i \<and> i < k'' * p + F)
                          \<or> (F \<le> k'' * p \<and> k'' * p - F \<le> i \<and> i < k'' * p)))"
      proof
        fix k'' assume "k'' \<in> set ks"
        then have "k \<noteq> k''" using Cons.prems(1) True by auto
        from crossfade_windows_disjoint[OF \<open>2 * F \<le> p\<close> this win]
        show "\<not> (k'' * p + F < length b'
                      \<and> ((k'' * p \<le> i \<and> i < k'' * p + F)
                          \<or> (F \<le> k'' * p \<and> k'' * p - F \<le> i \<and> i < k'' * p)))"
          by blast
      qed
      with fr i lb' show ?thesis by simp
    qed
    have a: "k * p \<le> i \<and> i < k * p + F \<longrightarrow> r ! i = b ! i * fade_in ! (i - k * p)"
    proof
      assume w: "k * p \<le> i \<and> i < k * p + F"
      then have "r ! i = b' ! i" using keep by blast
      moreover have "b' ! i = b ! i * fade_in ! (i - k * p)"
        using nb' i w True Cons.prems(3) by simp
      ultimately show "r ! i = b ! i * fade_in ! (i - k * p)" by simp
    qed
    have b: "F \<le> k * p \<and> k * p - F \<le> i \<and> i < k * p
                \<longrightarrow> r ! i = b ! i * fade_out ! (i - (k * p - F))"
    proof
      assume w: "F \<le> k * p \<and> k * p - F \<le> i \<and> i < k * p"
      then have "r ! i = b' ! i" using keep by blast
      moreover have "b' ! i = b ! i * fade_out ! (i - (k * p - F))"
        using nb' i w True Cons.prems(3) by simp
      ultimately show "r ! i = b ! i * fade_out ! (i - (k * p - F))" by simp
    qed
    show ?thesis using full a b by blast
  next
    case False
    then have kin: "k \<in> set ks" using Cons.prems(2) by simp
    have dist: "distinct ks" using Cons.prems(1) by simp
    have act: "k * p + F < length b'" using Cons.prems(3) lb' by simp
    have i': "i < length b'" using i lb' by simp
    from Cons.IH[OF dist kin act i'] obtain r where
      run: "for_each (crossfade_step p (int F)) ks b' = Inr r"
      and ein: "k * p \<le> i \<and> i < k * p + F \<longrightarrow> r ! i = b' ! i * fade_in ! (i - k * p)"
      and eout: "F \<le> k * p \<and> k * p - F \<le> i \<and> i < k * p
                \<longrightarrow> r ! i = b' ! i * fade_out ! (i - (k * p - F))"
      by blast
    have full: "for_each (crossfade_step p (int F)) (k' # ks) b = Inr r"
      using step run by simp
    have same: "b' ! i = b ! i"
      if win: "(k * p \<le> i \<and> i < k * p + F) \<or> (F \<le> k * p \<and> k * p - F \<le> i \<and> i < k * p)"
    proof -
      from crossfade_windows_disjoint[OF \<open>2 * F \<le> p\<close> False win]
      have "\<not> ((k' * p \<le> i \<and> i < k' * p + F) \<or> (F \<le> k' * p \<and> k' * p - F \<le> i \<and> i < k' * p))" .
      with nb' i show ?thesis by auto
    qed
    show ?thesis using full ein eout same by auto
  qed
qed

section \<open>Crossfading the seams\<close>

text \<open>
  C5, as the code has it. The seam loops run over \<open>k = 1, \<dots>, n - 1\<close> and fade the seam
  at \<open>k * seamPeriod\<close> only when \<open>k * seamPeriod + fadeLength < len(buffer)\<close> (strictly).
  With the ramps \<open>fade_in = linspace(0, 1, fadeLength)\<close> and
  \<open>fade_out = linspace(1, 0, fadeLength)\<close>:
  \<^item> the loop of the comprehensive pipelines keeps the length of the buffer, leaves every
    sample outside the windows \<open>[k * seamPeriod, k * seamPeriod + fadeLength)\<close> of the
    faded seams unchanged, and (when \<open>fadeLength \<le> seamPeriod\<close>, so that the windows do
    not overlap) multiplies the samples of each such window by \<open>fade_in\<close>;
  \<^item> the loop of \<open>extend_audio_method1_repeat\<close> keeps the length of the buffer, fades the
    same windows in, and also multiplies the \<open>fadeLength\<close> samples before each faded
    seam by \<open>fade_out\<close>; every sample outside both kinds of window is unchanged.
\<close>

theorem seam_fades:
  fixes b :: signal and p F n :: nat
  shows "\<exists>fade_in fade_out r r'.
      linspace 0 1 (int F) = Inr fade_in \<and> linspace 1 0 (int F) = Inr fade_out
    \<and> (\<forall>j < F. fade_in ! j = (if F = 1 then 0 else real j / (real F - 1))
             \<and> fade_out ! j = (if F = 1 then 1 else 1 - real j / (real F - 1)))
    \<and> for_each (fade_in_step p (int F)) [1 ..< n] b = Inr r \<and> length r = length b
    \<and> (\<forall>i < length b.
          (\<forall>k \<in> {1 ..< n}. \<not> (k * p + F < length b \<and> k * p \<le> i \<and> i < k * p + F))
          \<longrightarrow> r ! i = b ! i)
    \<and> (F \<le> p \<longrightarrow>
          (\<forall>k \<in> {1 ..< n}. k * p + F < length b \<longrightarrow>
             (\<forall>j < F. r ! (k * p + j) = b ! (k * p + j) * fade_in ! j)))
    \<and> for_each (crossfade_step p (int F)) [1 ..< n] b = Inr r' \<and> length r' = length b
    \<and> (\<forall>i < length b.
          (\<forall>k \<in> {1 ..< n}. \<not> (k * p + F < length b
               \<and> ((k * p \<le> i \<and> i < k * p + F) \<or> (F \<le> k * p \<and> k * p - F \<le> i \<and> i < k * p))))
          \<longrightarrow> r' ! i = b ! i)
    \<and> (2 * F \<le> p \<longrightarrow>
          (\<forall>k \<in> {1 ..< n}. k * p + F < length b \<longrightarrow>
             (\<forall>j < F. r' ! (k * p + j) = b ! (k * p + j) * fade_in ! j
                    \<and> r' ! (k * p - F + j) = b ! (k * p - F + j) * fade_out ! j)))"
proof -
  obtain fade_in where lin: "linspace 0 1 (int F) = Inr fade_in"
    using linspace_total by blast
  obtain fade_out where lout: "linspace 1 0 (int F) = Inr fade_out"
    using linspace_total by blast
  have ramps: "\<forall>j < F. fade_in ! j = (if F = 1 then 0 else real j / (real F - 1))
             \<and> fade_out ! j = (if F = 1 then 1 else 1 - real j / (real F - 1))"
  proof (intro allI impI)
    fix j assume j: "j < F"
    show "fade_in ! j = (if F = 1 then 0 else real j / (real F - 1))
             \<and> fade_out ! j = (if F = 1 then 1 else 1 - real j / (real F - 1))"
      using linspace_nth[OF lin j] linspace_nth[OF lout j] by (simp add: field_simps)
  qed
  from fade_in_loop_frame[OF lin, of p "[1 ..< n]" b] obtain r where
    run: "for_each (fade_in_step p (int F)) [1 ..< n] b = Inr r" and lr: "length r = length b"
    and frame: "\<forall>i < length b.
          (\<forall>k \<in> {1 ..< n}. \<not> (k * p + F < length b \<and> k * p \<le> i \<and> i < k * p + F))
          \<longrightarrow> r ! i = b ! i"
    by auto
  have effect: "F \<le> p \<longrightarrow>
          (\<forall>k \<in> {1 ..< n}. k * p + F < length b \<longrightarrow>
             (\<forall>j < F. r ! (k * p + j) = b ! (k * p + j) * fade_in ! j))"
  proof (intro impI ballI allI)
    fix k j assume Fp: "F \<le> p" and k: "k \<in> {1 ..< n}" and act: "k * p + F < length b"
      and j: "j < F"
    have kin: "k \<in> set [1 ..< n]" using k by simp
    from fade_in_loop_effect[OF lin distinct_upt Fp kin act j] run
    show "r ! (k * p + j) = b ! (k * p + j) * fade_in ! j" by simp
  qed
  from crossfade_loop_frame[OF lout lin, of p "[1 ..< n]" b] obtain r' where
    run': "for_each (crossfade_step p (int F)) [1 ..< n] b = Inr r'"
    and lr': "length r' = length b"
    and frame': "\<forall>i < length b.
          (\<forall>k \<in> {1 ..< n}. \<not> (k * p + F < length b
               \<and> ((k * p \<le> i \<and> i < k * p + F) \<or> (F \<le> k * p \<and> k * p - F \<le> i \<and> i < k * p))))
          \<longrightarrow> r' ! i = b ! i"
    by auto
  have effect': "2 * F \<le> p \<longrightarrow>
          (\<forall>k \<in> {1 ..< n}. k * p + F < length b \<longrightarrow>
             (\<forall>j < F. r' ! (k * p + j) = b ! (k * p + j) * fade_in ! j
                    \<and> r' ! (k * p - F + j) = b ! (k * p - F + j) * fade_out ! j))"
  proof (intro impI ballI allI)
    fix k j assume Fp: "2 * F \<le> p" and k: "k \<in> {1 ..< n}" and act: "k * p + F < length b"
      and j: "j < F"
    have kin: "k \<in> set [1 ..< n]" using k by simp
    have "1 \<le> k" using k by simp
    then have "1 * p \<le> k * p" by (rule mult_le_mono1)
    then have "p \<le> k * p" by (simp only: mult_1)
    then have Fk: "F \<le> k * p" using Fp by linarith
    have i1: "k * p + j < length b" using act j by linarith
    have i2: "k * p - F + j < length b" using act j Fk by linarith
    from crossfade_loop_effect[OF lout lin distinct_upt Fp kin act i1] run' j
    have a: "r' ! (k * p + j) = b ! (k * p + j) * fade_in ! j" by simp
    from crossfade_loop_effect[OF lout lin distinct_upt Fp kin act i2] obtain r2 where
      r2: "for_each (crossfade_step p (int F)) [1 ..< n] b = Inr r2"
      and imp: "F \<le> k * p \<and> k * p - F \<le> k * p - F + j \<and> k * p - F + j < k * p
                \<longrightarrow> r2 ! (k * p - F + j)
                      = b ! (k * p - F + j) * fade_out ! (k * p - F + j - (k * p - F))"
      by blast
    have same: "r2 = r'" using r2 run' by simp
    have prem: "F \<le> k * p \<and> k * p - F \<le> k * p - F + j \<and> k * p - F + j < k * p"
      using Fk j by linarith
    have off: "k * p - F + j - (k * p - F) = j" by simp
    have b: "r' ! (k * p - F + j) = b ! (k * p - F + j) * fade_out ! j"
      using imp prem same off by metis
    show "r' ! (k * p + j) = b ! (k * p + j) * fade_in ! j
                    \<and> r' ! (k * p - F + j) = b ! (k * p - F + j) * fade_out ! j"
      using a b by simp
  qed
  show ?thesis
    using lin lout ramps run lr frame effect run' lr' frame' effect' by blast
qed

theorem seam_fades_witness:
  "(2::nat) * 2 \<le> 4 \<and> (1::nat) \<in> {1 ..< 2} \<and> (1::nat) * 4 + 2 < length [1, 1, 1, 1, 1, 1, 1, 1, 1 :: real] \<and>
   linspace 0 1 (int 2) = Inr [0, 1] \<and> linspace 1 0 (int 2) = Inr [1, 0] \<and>
   for_each (fade_in_step 4 (int 2)) [1 ..< 2] [1, 1, 1, 1, 1, 1, 1, 1, 1]
     = Inr [1, 1, 1, 1, 0, 1, 1, 1, 1] \<and>
   for_each (crossfade_step 4 (int 2)) [1 ..< 2] [1, 1, 1, 1, 1, 1, 1, 1, 1]
     = Inr [1, 1, 1, 0, 0, 1, 1, 1, 1]"
  using seam_fades [of 2 4 2 "[1, 1, 1, 1, 1, 1, 1, 1, 1]"]
  by (simp add: then_do_def linspace_def mul_slice_def fade_in_step_def crossfade_step_def
        Let_def upt_conv_Cons numeral_eq_Suc)

text \<open>
  C5, as the claim states it, fails. In \<open>extend_audio_method1_repeat\<close> on three samples
  at sample rate 40 and a quarter of a second (target 10, fade length 2, seams at 3, 6
  and 9) the sample at index 2, before the first seam, is multiplied by the end of the
  fade-out ramp and becomes zero. And a window that ends exactly at the end of the
  buffer (seam 2, fade length 2, four samples) is not faded.
\<close>

theorem fade_out_before_first_seam:
  "extend_audio_method1_repeat [1, 1, 1] 40 (1 / 4) = Inr [1, 1, 0, 0, 1, 0, 0, 1, 0, 0] \<and>
   for_each (fade_in_step 2 2) [1 ..< 2] [1, 1, 1, 1] = Inr [1, 1, 1, 1]"
  by (simp add: then_do_def py_int_def float64_eval slice_to_def tile_def ceil_div_def linspace_def
        mul_slice_def fade_in_step_def crossfade_step_def extend_audio_method1_repeat_def
        Let_def upt_conv_Cons numeral_eq_Suc)

section \<open>Repeating a signal a whole number of times\<close>

lemma ceil_div_exact:
  assumes "0 < L"
  shows "ceil_div (int (k * L)) (int L) = Inr (int k)"
proof -
  have "real_of_int (int (k * L)) / real_of_int (int L) = real k"
    using assms by simp
  then have "\<lceil>real_of_int (int (k * L)) / real_of_int (int L)\<rceil> = int k"
    by (simp only: ceiling_of_nat)
  then show ?thesis using assms by (simp add: ceil_div_def del: of_nat_mult)
qed

lemma py_int_of_nat: "0 \<le> x \<Longrightarrow> py_int x = int (nat (py_int x))"
  by (simp add: py_int_def)

text \<open>
  C7, as the code has it. For a signal of length \<open>L > 0\<close> and \<open>k \<ge> 1\<close> with
  \<open>target_length = k * L\<close>: the strategy \<open>repeat\<close> of \<open>extend_to_target_length\<close>, which
  does not crossfade, returns exactly \<open>k\<close> concatenated copies of the signal;
  \<open>extend_audio_method1_repeat\<close> (at a sample rate that is not negative) returns
  \<open>k * L\<close> samples that agree with the \<open>k\<close> concatenated copies at every index that lies
  neither in the fade-in window \<open>[j * L, j * L + fade_length)\<close> nor in the fade-out
  window \<open>[j * L - fade_length, j * L)\<close> of a seam \<open>j * L\<close>, \<open>1 \<le> j < k\<close>, with
  \<open>fade_length = int(0.05 * sr)\<close>.
\<close>

theorem repeat_tiles_whole_copies:
  fixes k :: nat
  assumes "audio \<noteq> []" "1 \<le> k"
  shows "(target_length self = int (k * length audio) \<longrightarrow>
            extend_to_target_length time_stretch self audio ''repeat''
              = Inr (concat (replicate k audio))) \<and>
         (0 \<le> sr \<and> py_int (fmul target_seconds (real_of_int sr)) = int (k * length audio) \<longrightarrow>
            (\<exists>out. extend_audio_method1_repeat audio sr target_seconds = Inr out
               \<and> length out = k * length audio
               \<and> (\<forall>i < k * length audio.
                     (\<forall>j \<in> {1 ..< k}.
                         \<not> (int (j * length audio) - py_int (fmul (5 / 100) (real_of_int sr)) \<le> int i
                            \<and> int i < int (j * length audio) + py_int (fmul (5 / 100) (real_of_int sr))))
                     \<longrightarrow> out ! i = concat (replicate k audio) ! i)))"
proof (intro conjI impI)
  let ?L = "length audio"
  have L: "0 < ?L" using assms(1) by simp
  assume t: "target_length self = int (k * ?L)"
  show "extend_to_target_length time_stretch self audio ''repeat'' = Inr (concat (replicate k audio))"
  proof (cases "int ?L \<ge> target_length self")
    case True
    then have "int (k * ?L) \<le> int ?L" using t by simp
    then have "k * ?L \<le> 1 * ?L" by (simp only: of_nat_le_iff mult_1)
    then have "k \<le> 1" using L by (simp only: mult_le_cancel2)
    then have "k = 1" using assms(2) by simp
    then show ?thesis using True t
      by (simp add: extend_to_target_length_def slice_to_def)
  next
    case False
    have "slice_to (int (k * ?L)) (concat (replicate k audio)) = concat (replicate k audio)"
      by (rule slice_to_all) (simp add: length_concat_replicate)
    then show ?thesis using False t ceil_div_exact[OF L, of k]
      by (simp add: extend_to_target_length_def tile_def del: of_nat_mult)
  qed
next
  let ?L = "length audio"
  let ?t = "py_int (fmul target_seconds (real_of_int sr))"
  let ?f = "py_int (fmul (5 / 100) (real_of_int sr))"
  have L: "0 < ?L" using assms(1) by simp
  assume h: "0 \<le> sr \<and> ?t = int (k * ?L)"
  define F where "F = nat ?f"
  have f: "?f = int F"
    unfolding F_def using h by (intro py_int_of_nat fmul_nonneg) simp_all
  obtain fade_in where lin: "linspace 0 1 (int F) = Inr fade_in"
    using linspace_total by blast
  obtain fade_out where lout: "linspace 1 0 (int F) = Inr fade_out"
    using linspace_total by blast
  let ?b = "concat (replicate k audio)"
  have lb: "length ?b = k * ?L" by (rule length_concat_replicate)
  from crossfade_loop_frame[OF lout lin, of ?L "[1 ..< k]" ?b] obtain r where
    run: "for_each (crossfade_step ?L (int F)) [1 ..< k] ?b = Inr r"
    and lr: "length r = length ?b"
    and frame: "\<forall>i < length ?b.
          (\<forall>j \<in> {1 ..< k}. \<not> (j * ?L + F < length ?b
               \<and> ((j * ?L \<le> i \<and> i < j * ?L + F) \<or> (F \<le> j * ?L \<and> j * ?L - F \<le> i \<and> i < j * ?L))))
          \<longrightarrow> r ! i = ?b ! i"
    by auto
  have cut: "slice_to (int (k * ?L)) r = r"
    by (rule slice_to_all) (simp add: lr lb)
  have res: "extend_audio_method1_repeat audio sr target_seconds = Inr r"
    using h f run cut ceil_div_exact[OF L, of k]
    by (simp add: extend_audio_method1_repeat_def Let_def tile_def del: of_nat_mult)
  have out: "\<forall>i < k * ?L.
                     (\<forall>j \<in> {1 ..< k}.
                         \<not> (int (j * ?L) - ?f \<le> int i \<and> int i < int (j * ?L) + ?f))
                     \<longrightarrow> r ! i = ?b ! i"
  proof (intro allI impI)
    fix i assume i: "i < k * ?L"
      and away: "\<forall>j \<in> {1 ..< k}. \<not> (int (j * ?L) - ?f \<le> int i \<and> int i < int (j * ?L) + ?f)"
    have "\<forall>j \<in> {1 ..< k}. \<not> (j * ?L + F < length ?b
               \<and> ((j * ?L \<le> i \<and> i < j * ?L + F) \<or> (F \<le> j * ?L \<and> j * ?L - F \<le> i \<and> i < j * ?L)))"
    proof
      fix j assume "j \<in> {1 ..< k}"
      with away have "\<not> (int (j * ?L) - int F \<le> int i \<and> int i < int (j * ?L) + int F)"
        using f by simp
      then show "\<not> (j * ?L + F < length ?b
               \<and> ((j * ?L \<le> i \<and> i < j * ?L + F) \<or> (F \<le> j * ?L \<and> j * ?L - F \<le> i \<and> i < j * ?L)))"
        by linarith
    qed
    with frame i lb show "r ! i = ?b ! i" by simp
  qed
  show "\<exists>out. extend_audio_method1_repeat audio sr target_seconds = Inr out
               \<and> length out = k * ?L
               \<and> (\<forall>i < k * ?L.
                     (\<forall>j \<in> {1 ..< k}.
                         \<not> (int (j * ?L) - ?f \<le> int i \<and> int i < int (j * ?L) + ?f))
                     \<longrightarrow> out ! i = ?b ! i)"
    using res lr lb out by simp
qed

theorem repeat_tiles_whole_copies_witness:
  "[1, 2, 3, 4, 5, 6 :: real] \<noteq> [] \<and> (1::nat) \<le> 2 \<and>
   target_length (AudioAugmentor_init 12 1) = int (2 * length [1, 2, 3, 4, 5, 6 :: real]) \<and>
   extend_to_target_length resample_stretch (AudioAugmentor_init 12 1) [1, 2, 3, 4, 5, 6] ''repeat''
     = Inr [1, 2, 3, 4, 5, 6, 1, 2, 3, 4, 5, 6] \<and>
   (0::int) \<le> 40 \<and>
   py_int (fmul (3 / 10) (real_of_int 40)) = int (2 * length [1, 2, 3, 4, 5, 6 :: real]) \<and>
   extend_audio_method1_repeat [1, 2, 3, 4, 5, 6] 40 (3 / 10)
     = Inr [1, 2, 3, 4, 5, 0, 0, 2, 3, 4, 5, 6]"
  using repeat_tiles_whole_copies
          [of "[1, 2, 3, 4, 5, 6]" 2 "AudioAugmentor_init 12 1" resample_stretch 40 "3 / 10"]
  by (simp add: AudioAugmentor_init_def extend_to_target_length_def
        extend_audio_method1_repeat_def then_do_def py_int_def float64_eval slice_to_def tile_def
        ceil_div_def linspace_def mul_slice_def crossfade_step_def Let_def
        upt_conv_Cons numeral_eq_Suc)

text \<open>
  C7, as the claim states it, fails for \<open>extend_audio_method1_repeat\<close> when the crossfade
  region of a seam is the window \<open>[seam, seam + fadeLength)\<close> of the specification. On
  six samples at sample rate 40 and 0.3 seconds the target is twelve samples, two whole
  copies, the fade length is two and the only seam is at index 6. Index 5 lies outside
  the window \<open>[6, 8)\<close>, the two copies have the value 6 there, and the result has 0: the
  fade-out before the seam has changed it.
\<close>

theorem repeat_differs_before_the_seam:
  "extend_audio_method1_repeat [1, 2, 3, 4, 5, 6] 40 (3 / 10)
     = Inr [1, 2, 3, 4, 5, 0, 0, 2, 3, 4, 5, 6] \<and>
   py_int (fmul (3 / 10) (real_of_int 40)) = int (2 * length [1, 2, 3, 4, 5, 6 :: real]) \<and>
   py_int (fmul (5 / 100) (real_of_int 40)) = 2 \<and>
   \<not> (6 \<le> (5::nat) \<and> (5::nat) < 6 + 2) \<and>
   concat (replicate 2 [1, 2, 3, 4, 5, 6 :: real]) ! 5 = 6"
  by (simp add: extend_audio_method1_repeat_def then_do_def py_int_def float64_eval slice_to_def
        tile_def ceil_div_def linspace_def mul_slice_def crossfade_step_def
        upt_conv_Cons numeral_eq_Suc)

section \<open>The length of the result\<close>

lemma simple_reverb_length:
  assumes "0 \<le> sr" "0 \<le> room_size"
  shows "\<exists>out. simple_reverb audio sr room_size = Inr out \<and> length out = length audio"
proof -
  have "0 \<le> fmul (fmul (real_of_int sr) (5 / 100)) room_size"
    using assms by (intro fmul_nonneg) simp_all
  then have "0 \<le> py_int (fmul (fmul (real_of_int sr) (5 / 100)) room_size)" by (rule py_int_ge0)
  then show ?thesis by (simp add: simple_reverb_def Let_def)
qed

lemma add_white_noise_length:
  assumes "0 \<le> noise_level"
  shows "\<exists>out. add_white_noise draws audio noise_level = Inr out \<and> length out = length audio"
  using assms by (simp add: add_white_noise_def normal_def)

lemma fade_in_loop_length:
  assumes "0 \<le> fade_length"
  shows "\<exists>r. for_each (fade_in_step p fade_length) ks b = Inr r \<and> length r = length b"
proof -
  obtain F where F: "fade_length = int F" using assms by (metis nonneg_int_cases)
  obtain fade where lin: "linspace 0 1 (int F) = Inr fade" using linspace_total by blast
  from fade_in_loop_frame[OF lin, of p ks b] show ?thesis unfolding F by blast
qed

lemma fix_length_exact: "0 \<le> t \<Longrightarrow> int (length (fix_length t e)) = t"
  by (simp add: fix_length_def slice_to_def)

lemma scale_by_peak_length:
  "e \<noteq> [] \<Longrightarrow> \<exists>out. scale_by_peak e = Inr out \<and> length out = length e"
  by (simp add: scale_by_peak_def max_abs_def)

lemma augment_comprehensive_total:
  assumes s: "time_stretch audio (8 / 10) = Inr stretched" and ne: "stretched \<noteq> []"
    and t0: "0 \<le> target_length self" and sr: "0 \<le> sample_rate self"
    and nl: "0 \<le> noise_level"
  shows "\<exists>out. augment_comprehensive time_stretch draws self audio noise_level = Inr out"
proof -
  let ?t = "target_length self"
  from tile_slice_length[OF ne t0] obtain n tiled where
    cd: "ceil_div ?t (int (length stretched)) = Inr n" and ti: "tile stretched n = Inr tiled"
    by blast
  have f0: "0 \<le> py_int (fmul (5 / 100) (real_of_int (sample_rate self)))"
    using sr by (intro py_int_ge0 fmul_nonneg) simp_all
  from fade_in_loop_length[OF f0, of "length stretched" "[1 ..< nat n]" "slice_to ?t tiled"]
  obtain repeated where
    lp: "for_each (fade_in_step (length stretched)
                     (py_int (fmul (5 / 100) (real_of_int (sample_rate self)))))
           [1 ..< nat n] (slice_to ?t tiled) = Inr repeated"
    by blast
  from add_white_noise_length[OF nl, of draws repeated] obtain noisy where
    no: "add_white_noise draws repeated noise_level = Inr noisy"
    by blast
  from simple_reverb_length[OF sr, of "3 / 10" noisy] obtain extended where
    re: "simple_reverb noisy (sample_rate self) (3 / 10) = Inr extended"
    by auto
  show ?thesis
    using s cd ti lp no re
    by (simp add: augment_comprehensive_def add_reverb_def Let_def)
qed

lemma augment_audio_comprehensive_length:
  assumes s: "time_stretch audio (8 / 10) = Inr stretched" and ne: "stretched \<noteq> []"
    and t0: "0 < target_length self" and sr: "0 \<le> sample_rate self"
    and nl: "0 \<le> noise_level"
  shows "\<exists>out. augment_audio time_stretch draws self audio ''comprehensive'' noise_level = Inr out
           \<and> int (length out) = target_length self"
proof -
  have t0': "0 \<le> target_length self" using t0 by simp
  have "\<exists>out. augment_comprehensive time_stretch draws self audio noise_level = Inr out"
    using s ne t0' sr nl by (rule augment_comprehensive_total)
  then obtain extended where
    ac: "augment_comprehensive time_stretch draws self audio noise_level = Inr extended"
    by blast
  let ?e = "fix_length (target_length self) extended"
  have le: "int (length ?e) = target_length self" using t0' by (rule fix_length_exact)
  then have "?e \<noteq> []" using t0 by auto
  from scale_by_peak_length[OF this] obtain out where
    "scale_by_peak ?e = Inr out" "length out = length ?e"
    by blast
  then show ?thesis using ac le by (simp add: augment_audio_def)
qed

text \<open>
  C1, as the code has it. For a target duration and a sample rate that are positive and
  a signal that is not empty, the target length is \<open>int(target_duration * sample_rate)\<close>,
  the double-precision product truncated (its floor), not rounded to the nearest
  integer. The strategies \<open>repeat\<close> and
  \<open>pad_silence\<close> return exactly that many samples. So does \<open>stretch\<close> when the external
  time-stretch, if it is called, returns at least that many samples;
  \<open>stretch_and_repeat\<close> when the time-stretch, if it is called, returns a signal that is
  not empty; and the pipeline \<open>extend_audio_method3_comprehensive\<close> when the
  time-stretch returns a signal that is not empty and the noise level is not negative.
  Under the same two conditions the pipeline \<open>augment_audio\<close> with the method
  \<open>comprehensive\<close> returns exactly that many values when the target length is positive.
\<close>

theorem strategies_return_target_length:
  assumes "0 < target_seconds" "0 < sr" "audio \<noteq> []"
  shows
   "py_int (fmul target_seconds (real_of_int sr)) = \<lfloor>fmul target_seconds (real_of_int sr)\<rfloor> \<and>
    target_length (AudioAugmentor_init target_seconds sr) = py_int (fmul target_seconds (real_of_int sr)) \<and>
    (\<exists>out. extend_to_target_length time_stretch (AudioAugmentor_init target_seconds sr) audio ''repeat''
              = Inr out
         \<and> int (length out) = py_int (fmul target_seconds (real_of_int sr))) \<and>
    (\<exists>out. extend_to_target_length time_stretch (AudioAugmentor_init target_seconds sr) audio ''pad_silence''
              = Inr out
         \<and> int (length out) = py_int (fmul target_seconds (real_of_int sr))) \<and>
    ((int (length audio) < py_int (fmul target_seconds (real_of_int sr)) \<longrightarrow>
        (\<exists>stretched. time_stretch audio (real (length audio)
                          / real_of_int (py_int (fmul target_seconds (real_of_int sr)))) = Inr stretched
           \<and> py_int (fmul target_seconds (real_of_int sr)) \<le> int (length stretched)))
      \<longrightarrow> (\<exists>out. extend_to_target_length time_stretch (AudioAugmentor_init target_seconds sr) audio ''stretch''
              = Inr out
         \<and> int (length out) = py_int (fmul target_seconds (real_of_int sr)))) \<and>
    ((int (length audio) < py_int (fmul target_seconds (real_of_int sr)) \<longrightarrow>
        (\<exists>stretched. time_stretch audio (7 / 10) = Inr stretched \<and> stretched \<noteq> []))
      \<longrightarrow> (\<exists>out. extend_to_target_length time_stretch (AudioAugmentor_init target_seconds sr) audio
                ''stretch_and_repeat'' = Inr out
         \<and> int (length out) = py_int (fmul target_seconds (real_of_int sr)))) \<and>
    ((\<exists>stretched. time_stretch audio stretch_rate = Inr stretched \<and> stretched \<noteq> [])
        \<and> 0 \<le> noise_level
      \<longrightarrow> (\<exists>out. extend_audio_method3_comprehensive time_stretch draws stretch_rate audio sr
                target_seconds noise_level = Inr out
         \<and> int (length out) = py_int (fmul target_seconds (real_of_int sr)))) \<and>
    ((\<exists>stretched. time_stretch audio (8 / 10) = Inr stretched \<and> stretched \<noteq> [])
        \<and> 0 \<le> noise_level \<and> 0 < py_int (fmul target_seconds (real_of_int sr))
      \<longrightarrow> (\<exists>out. augment_audio time_stretch draws (AudioAugmentor_init target_seconds sr) audio
                ''comprehensive'' noise_level = Inr out
         \<and> int (length out) = py_int (fmul target_seconds (real_of_int sr))))"
proof -
  let ?t = "py_int (fmul target_seconds (real_of_int sr))"
  let ?self = "AudioAugmentor_init target_seconds sr"
  have pos: "0 \<le> fmul target_seconds (real_of_int sr)"
    using assms by (intro fmul_nonneg) simp_all
  have t0: "0 \<le> ?t" using pos by (rule py_int_ge0)
  have fl: "?t = \<lfloor>fmul target_seconds (real_of_int sr)\<rfloor>" using pos by (rule py_int_nonneg)
  have tl: "target_length ?self = ?t" by (simp add: AudioAugmentor_init_def)
  have long: "int (length audio) \<ge> ?t \<Longrightarrow>
      extend_to_target_length time_stretch ?self audio m = Inr (slice_to ?t audio)
      \<and> int (length (slice_to ?t audio)) = ?t" for m
    using t0 by (simp add: extend_to_target_length_def tl length_slice_to)
  have rep: "\<exists>out. extend_to_target_length time_stretch ?self audio ''repeat'' = Inr out
         \<and> int (length out) = ?t"
  proof (cases "int (length audio) \<ge> ?t")
    case True
    then show ?thesis using long by blast
  next
    case False
    from tile_slice_length[OF assms(3) t0] obtain n tiled where
      "ceil_div ?t (int (length audio)) = Inr n" "tile audio n = Inr tiled"
      "int (length (slice_to ?t tiled)) = ?t"
      by blast
    then show ?thesis using False
      by (simp add: extend_to_target_length_def tl)
  qed
  have pad: "\<exists>out. extend_to_target_length time_stretch ?self audio ''pad_silence'' = Inr out
         \<and> int (length out) = ?t"
  proof (cases "int (length audio) \<ge> ?t")
    case True
    then show ?thesis using long by blast
  next
    case False
    then show ?thesis
      by (simp add: extend_to_target_length_def tl Let_def)
  qed
  have str: "(int (length audio) < ?t \<longrightarrow>
        (\<exists>stretched. time_stretch audio (real (length audio) / real_of_int ?t) = Inr stretched
           \<and> ?t \<le> int (length stretched)))
      \<longrightarrow> (\<exists>out. extend_to_target_length time_stretch ?self audio ''stretch'' = Inr out
         \<and> int (length out) = ?t)"
  proof
    assume h: "int (length audio) < ?t \<longrightarrow>
        (\<exists>stretched. time_stretch audio (real (length audio) / real_of_int ?t) = Inr stretched
           \<and> ?t \<le> int (length stretched))"
    show "\<exists>out. extend_to_target_length time_stretch ?self audio ''stretch'' = Inr out
         \<and> int (length out) = ?t"
    proof (cases "int (length audio) \<ge> ?t")
      case True
      then show ?thesis using long by blast
    next
      case False
      with h obtain stretched where
        s: "time_stretch audio (real (length audio) / real_of_int ?t) = Inr stretched"
        and ls: "?t \<le> int (length stretched)"
        by auto
      have "int (length (slice_to ?t stretched)) = ?t"
        using t0 ls by (rule length_slice_to)
      then show ?thesis using False s
        by (simp add: extend_to_target_length_def tl)
    qed
  qed
  have sar: "(int (length audio) < ?t \<longrightarrow>
        (\<exists>stretched. time_stretch audio (7 / 10) = Inr stretched \<and> stretched \<noteq> []))
      \<longrightarrow> (\<exists>out. extend_to_target_length time_stretch ?self audio ''stretch_and_repeat'' = Inr out
         \<and> int (length out) = ?t)"
  proof
    assume h: "int (length audio) < ?t \<longrightarrow>
        (\<exists>stretched. time_stretch audio (7 / 10) = Inr stretched \<and> stretched \<noteq> [])"
    show "\<exists>out. extend_to_target_length time_stretch ?self audio ''stretch_and_repeat'' = Inr out
         \<and> int (length out) = ?t"
    proof (cases "int (length audio) \<ge> ?t")
      case True
      then show ?thesis using long by blast
    next
      case False
      with h obtain stretched where
        s: "time_stretch audio (7 / 10) = Inr stretched" and ne: "stretched \<noteq> []"
        by auto
      show ?thesis
      proof (cases "int (length stretched) < ?t")
        case short: True
        from tile_slice_length[OF ne t0] obtain n tiled where
          "ceil_div ?t (int (length stretched)) = Inr n" "tile stretched n = Inr tiled"
          "int (length (slice_to ?t tiled)) = ?t"
          by blast
        then show ?thesis using False s short
          by (simp add: extend_to_target_length_def tl)
      next
        case enough: False
        then have "int (length (slice_to ?t stretched)) = ?t"
          using t0 by (intro length_slice_to) simp_all
        then show ?thesis using False s enough
          by (simp add: extend_to_target_length_def tl)
      qed
    qed
  qed
  have m3: "(\<exists>stretched. time_stretch audio stretch_rate = Inr stretched \<and> stretched \<noteq> [])
        \<and> 0 \<le> noise_level
      \<longrightarrow> (\<exists>out. extend_audio_method3_comprehensive time_stretch draws stretch_rate audio sr
                target_seconds noise_level = Inr out
         \<and> int (length out) = ?t)"
  proof
    assume h: "(\<exists>stretched. time_stretch audio stretch_rate = Inr stretched \<and> stretched \<noteq> [])
        \<and> 0 \<le> noise_level"
    then obtain stretched where
      s: "time_stretch audio stretch_rate = Inr stretched" and ne: "stretched \<noteq> []"
      by blast
    from tile_slice_length[OF ne t0] obtain n tiled where
      cd: "ceil_div ?t (int (length stretched)) = Inr n" and ti: "tile stretched n = Inr tiled"
      and lt: "int (length (slice_to ?t tiled)) = ?t"
      by blast
    have f0: "0 \<le> py_int (fmul (5 / 100) (real_of_int sr))"
      using assms(2) by (intro py_int_ge0 fmul_nonneg) simp_all
    from fade_in_loop_length[OF f0, of "length stretched" "[1 ..< nat n]" "slice_to ?t tiled"]
    obtain repeated where
      lp: "for_each (fade_in_step (length stretched) (py_int (fmul (5 / 100) (real_of_int sr))))
             [1 ..< nat n] (slice_to ?t tiled) = Inr repeated"
      and lr: "length repeated = length (slice_to ?t tiled)"
      by blast
    from add_white_noise_length[of noise_level draws repeated] h obtain noisy where
      no: "add_white_noise draws repeated noise_level = Inr noisy"
      and ln: "length noisy = length repeated"
      by blast
    from simple_reverb_length[of sr "3 / 10" noisy] assms(2) obtain extended where
      re: "simple_reverb noisy sr (3 / 10) = Inr extended"
      and le: "length extended = length noisy"
      by auto
    have "int (length extended) = ?t" using le ln lr lt by simp
    then have "slice_to ?t extended = extended" by (intro slice_to_all) simp
    then have "extend_audio_method3_comprehensive time_stretch draws stretch_rate audio sr
                target_seconds noise_level = Inr extended"
      using s cd ti lp no re
      by (simp add: extend_audio_method3_comprehensive_def Let_def)
    then show "\<exists>out. extend_audio_method3_comprehensive time_stretch draws stretch_rate audio sr
                target_seconds noise_level = Inr out \<and> int (length out) = ?t"
      using \<open>int (length extended) = ?t\<close> by blast
  qed
  have aug: "(\<exists>stretched. time_stretch audio (8 / 10) = Inr stretched \<and> stretched \<noteq> [])
        \<and> 0 \<le> noise_level \<and> 0 < ?t
      \<longrightarrow> (\<exists>out. augment_audio time_stretch draws ?self audio ''comprehensive'' noise_level
                = Inr out
         \<and> int (length out) = ?t)"
  proof
    assume h: "(\<exists>stretched. time_stretch audio (8 / 10) = Inr stretched \<and> stretched \<noteq> [])
        \<and> 0 \<le> noise_level \<and> 0 < ?t"
    then obtain stretched where
      s: "time_stretch audio (8 / 10) = Inr stretched" and ne: "stretched \<noteq> []"
      by blast
    have tpos: "0 < target_length ?self" using h tl by simp
    have srn: "0 \<le> sample_rate ?self" using assms(2) by (simp add: AudioAugmentor_init_def)
    have nl: "0 \<le> noise_level" using h by simp
    have "\<exists>out. augment_audio time_stretch draws ?self audio ''comprehensive'' noise_level = Inr out
           \<and> int (length out) = target_length ?self"
      using s ne tpos srn nl by (rule augment_audio_comprehensive_length)
    then show "\<exists>out. augment_audio time_stretch draws ?self audio ''comprehensive'' noise_level
                = Inr out
         \<and> int (length out) = ?t"
      using tl by simp
  qed
  show ?thesis using fl tl rep pad str sar m3 aug by blast
qed

theorem strategies_return_target_length_witness:
  "(0::real) < 2 \<and> (0::int) < 1 \<and> [1::real] \<noteq> [] \<and>
   extend_to_target_length resample_stretch (AudioAugmentor_init 2 1) [1] ''repeat'' = Inr [1, 1] \<and>
   extend_to_target_length resample_stretch (AudioAugmentor_init 2 1) [1] ''pad_silence'' = Inr [1, 0] \<and>
   resample_stretch [1] (real (length [1::real]) / real_of_int (py_int (fmul 2 (real_of_int 1))))
     = Inr [1, 1] \<and>
   extend_to_target_length resample_stretch (AudioAugmentor_init 2 1) [1] ''stretch'' = Inr [1, 1] \<and>
   resample_stretch [1] (7 / 10) = Inr [1] \<and>
   extend_to_target_length resample_stretch (AudioAugmentor_init 2 1) [1] ''stretch_and_repeat''
     = Inr [1, 1] \<and>
   resample_stretch [1] (8 / 10) = Inr [1] \<and> (0::real) \<le> 5 / 1000 \<and>
   extend_audio_method3_comprehensive resample_stretch constant_draws (8 / 10) [1] 1 2 (5 / 1000)
     = Inr [109109 / 100000, 109109 / 100000] \<and>
   0 < py_int (fmul 2 (real_of_int 1)) \<and>
   augment_audio resample_stretch constant_draws (AudioAugmentor_init 2 1) [1] ''comprehensive''
       (5 / 1000)
     = Inr [Finite (95 / 100), Finite (95 / 100)]"
  using strategies_return_target_length
          [of 2 1 "[1]" resample_stretch "8 / 10" "5 / 1000" constant_draws]
  by (simp add: AudioAugmentor_init_def extend_to_target_length_def
        extend_audio_method3_comprehensive_def resample_stretch_def constant_draws_def
        add_white_noise_def normal_def simple_reverb_def add_reverb_def fade_in_step_def
        augment_audio_def augment_comprehensive_def fix_length_def scale_by_peak_def
        max_abs_def
        then_do_def py_int_def float64_eval slice_to_def tile_def ceil_div_def linspace_def mul_slice_def
        Let_def round_def upt_conv_Cons numeral_eq_Suc)

text \<open>
  C1, as the claim states it, fails: with a target duration of 1.75 seconds at sample
  rate 1 the strategy \<open>repeat\<close> returns one sample, \<open>int(1.75)\<close>, while
  \<open>round(1.75)\<close> is two.
\<close>

theorem target_length_is_truncated:
  "extend_to_target_length resample_stretch (AudioAugmentor_init (7 / 4) 1) [1] ''repeat''
     = Inr [1] \<and>
   round ((7 / 4) * real_of_int 1) = (2::int)"
  by (simp add: extend_to_target_length_def AudioAugmentor_init_def py_int_def float64_eval slice_to_def
        round_def)

section \<open>Peak normalisation applied twice\<close>


lemma peak_nonneg:
  fixes audio :: signal
  assumes "audio \<noteq> []"
  shows "0 \<le> Max (set (map abs audio))"
proof -
  have "\<bar>hd audio\<bar> \<in> set (map abs audio)" using assms by (cases audio) simp_all
  then have "\<bar>hd audio\<bar> \<le> Max (set (map abs audio))" by (intro Max_ge) simp_all
  then show ?thesis by linarith
qed


lemma peak_zero_all_zero:
  fixes audio :: signal
  assumes "audio \<noteq> []" "Max (set (map abs audio)) = 0" "x \<in> set audio"
  shows "x = 0"
proof -
  have "\<bar>x\<bar> \<le> Max (set (map abs audio))" using assms(3) by (intro Max_ge) simp_all
  then show ?thesis using assms(2) by simp
qed



end
